theory Spec2Isabelle
  imports Main "HOL-Library.Word"
begin

section \<open>Microsoft Outlook node: the \<open>execute\<close> dispatcher of MicrosoftOutlook.node.ts\<close>

text \<open>
  The theory embeds \<open>MicrosoftOutlook.execute\<close>
  (packages/nodes-base/nodes/Microsoft/Outlook/MicrosoftOutlook.node.ts) with all its
  per-item loops.
  Mutation of \<open>items\<close>, \<open>returnData\<close> and \<open>qs\<close> is explicit state passing; every
  HTTP request is appended to a call log; an exception is the left summand of the result,
  together with the state at the moment it was thrown.
\<close>

subsection \<open>Data\<close>

type_synonym byte = "8 word"

text \<open>JavaScript values as far as the node inspects them; \<open>JUndefined\<close> is the result of
  reading a property that is not there.\<close>

datatype json =
    JUndefined
  | JNull
  | JBool bool
  | JNum int
  | JStr string
  | JArr "json list"
  | JObj "(string \<times> json) list"

text \<open>\<open>IBinaryData\<close>: the payload with its optional file name and its MIME type.\<close>

record binary_data =
  bin_data :: "byte list"
  bin_fileName :: "string option"
  bin_mimeType :: string

text \<open>\<open>INodeExecutionData\<close>: \<open>json\<close>, the optional \<open>binary\<close> map and the origin item
  index written by \<open>constructExecutionMetaData\<close>.\<close>

record item =
  item_json :: json
  item_binary :: "(string \<rightharpoonup> binary_data) option"
  item_pairedItem :: "nat option"

datatype error =
    NodeOperationError string
  | NodeApiError json string
  | TypeError string
  | RequestError string

fun error_message :: "error \<Rightarrow> string" where
  "error_message (NodeOperationError m) = m"
| "error_message (NodeApiError j m) = m"
| "error_message (TypeError m) = m"
| "error_message (RequestError m) = m"

datatype req_body =
    NoBody
  | JsonBody json
  | BytesBody "byte list"
  | QueryBody "string \<rightharpoonup> json"

record request =
  req_method :: string
  req_target :: json
  req_body :: req_body
  req_qs :: "string \<rightharpoonup> json"
  req_headers :: "(string \<times> json) list"
  req_options :: "(string \<times> json) list"

record response =
  resp_headers :: "string \<rightharpoonup> string"
  resp_body :: json

text \<open>The value of the collection parameter \<open>additionalFields\<close> of one item.\<close>

record additional_fields =
  af_fields :: "string option"
  af_filter :: "string option"
  af_dataPropertyAttachmentsPrefixName :: "string option"
  af_fileName :: "string option"

text \<open>The parameters of the operations on drafts, folders and outgoing messages, for one
  item. \<open>fieldsObject\<close> is the collection \<open>additionalFields\<close> and \<open>updateFields\<close> the
  collection of that name, as the plain objects that are handed to \<open>createMessage\<close> or
  spread into a request body; \<open>send_flag\<close> is the parameter \<open>send\<close>.\<close>

record parameters =
  folderId :: string
  subject :: string
  bodyContent :: string
  toRecipients :: string
  replyType :: string
  comment :: string
  send_flag :: bool
  displayName :: string
  folderType :: string
  includeNestedFolders :: json
  sourceFolderIds :: json
  filterQuery :: json
  fieldsObject :: "(string \<times> json) list"
  updateFields :: "(string \<times> json) list"

text \<open>
  The execution context \<open>this\<close>. \<open>getNodeParameter(name, i)\<close> is one function of the item
  index per parameter name. The remote side is \<open>server\<close>: the answer to a request, given
  the requests issued before it. \<open>fetchAll\<close> (\<open>microsoftApiRequestAllItems\<close>) and
  \<open>downloadAttachments\<close> are helpers of GenericFunctions.ts, consumed through their
  interface only: they return their result and the requests they issued.
  \<open>base64\<close> is \<open>Buffer.toString('base64')\<close>, \<open>bufferFrom\<close> is \<open>Buffer.from(body, 'utf8')\<close>,
  \<open>detectMimeType\<close> is what \<open>prepareBinaryData\<close> chooses when it is given no MIME type.
  \<open>createMessage\<close>, \<open>binaryToAttachments\<close> and \<open>makeRecipient\<close> are the other helpers of
  GenericFunctions.ts, and \<open>template\<close> is the string a template literal makes of a value.
\<close>

record env =
  continueOnFail :: bool
  messageId :: "nat \<Rightarrow> string"
  attachmentId :: "nat \<Rightarrow> string"
  binaryPropertyName :: "nat \<Rightarrow> string"
  additionalFields :: "nat \<Rightarrow> additional_fields"
  returnAll :: "nat \<Rightarrow> bool"
  limit :: "nat \<Rightarrow> int"
  server :: "request list \<Rightarrow> request \<Rightarrow> error + response"
  fetchAll :: "request list \<Rightarrow> request \<Rightarrow> (error + json) \<times> request list"
  downloadAttachments :: "request list \<Rightarrow> json \<Rightarrow> string \<Rightarrow> (error + item list) \<times> request list"
  base64 :: "byte list \<Rightarrow> string"
  bufferFrom :: "json \<Rightarrow> byte list"
  detectMimeType :: "byte list \<Rightarrow> string \<Rightarrow> string"
  parameter :: "nat \<Rightarrow> parameters"
  createMessage :: "(string \<times> json) list \<Rightarrow> json"
  binaryToAttachments :: "json \<Rightarrow> item list \<Rightarrow> nat \<Rightarrow> error + json list"
  makeRecipient :: "string \<Rightarrow> json"
  template :: "json \<Rightarrow> string"

text \<open>The variables of \<open>execute\<close> that outlive one loop iteration (lines 134-137), and the
  log of the requests issued so far.\<close>

record exec_state =
  items :: "item list"
  returnData :: "item list"
  qs :: "string \<rightharpoonup> json"
  calls :: "request list"

text \<open>What one iteration of a per-item loop does next: go on with the next index, or
  return from \<open>execute\<close> at once with the given output.\<close>

datatype step = Next exec_state | Return "item list"

type_synonym outcome = "(error \<times> exec_state) + step"

subsection \<open>JavaScript helpers\<close>

text \<open>Truthiness of an optional string: \<open>undefined\<close> and the empty string are falsy.\<close>

fun truthy :: "string option \<Rightarrow> bool" where
  "truthy None = False"
| "truthy (Some s) = (s \<noteq> [])"

text \<open>Property read \<open>v.k\<close>: a TypeError on \<open>undefined\<close> and \<open>null\<close>, the field of an object,
  \<open>undefined\<close> otherwise.\<close>

fun get_prop :: "json \<Rightarrow> string \<Rightarrow> error + json" where
  "get_prop JUndefined k = Inl (TypeError (''Cannot read properties of undefined (reading '' @ k @ '')''))"
| "get_prop JNull k = Inl (TypeError (''Cannot read properties of null (reading '' @ k @ '')''))"
| "get_prop (JObj kvs) k = (case map_of kvs k of Some v \<Rightarrow> Inr v | None \<Rightarrow> Inr JUndefined)"
| "get_prop v k = Inr JUndefined"

text \<open>Truthiness of a value.\<close>

fun json_truthy :: "json \<Rightarrow> bool" where
  "json_truthy JUndefined = False"
| "json_truthy JNull = False"
| "json_truthy (JBool b) = b"
| "json_truthy (JNum n) = (n \<noteq> 0)"
| "json_truthy (JStr s) = (s \<noteq> [])"
| "json_truthy (JArr xs) = True"
| "json_truthy (JObj kvs) = True"

text \<open>Plain objects as lists of fields: reading a field (\<open>undefined\<close> when it is not there),
  assigning one (in place when it exists, appended otherwise), deleting one; the fields of
  a value as \<open>Object.assign\<close> copies them, and assignment to a field of a value.\<close>

definition obj_get :: "(string \<times> json) list \<Rightarrow> string \<Rightarrow> json" where
  "obj_get kvs k = (case map_of kvs k of Some v \<Rightarrow> v | None \<Rightarrow> JUndefined)"

definition obj_set :: "string \<Rightarrow> json \<Rightarrow> (string \<times> json) list \<Rightarrow> (string \<times> json) list" where
  "obj_set k v kvs =
     (if k \<in> fst ` set kvs then map (\<lambda>(k', v'). if k' = k then (k', v) else (k', v')) kvs
      else kvs @ [(k, v)])"

definition obj_delete :: "string \<Rightarrow> (string \<times> json) list \<Rightarrow> (string \<times> json) list" where
  "obj_delete k kvs = filter (\<lambda>(k', v'). k' \<noteq> k) kvs"

definition fields_of :: "json \<Rightarrow> (string \<times> json) list" where
  "fields_of j = (case j of JObj kvs \<Rightarrow> kvs | _ \<Rightarrow> [])"

definition set_prop :: "json \<Rightarrow> string \<Rightarrow> json \<Rightarrow> json" where
  "set_prop j k v = (case j of JObj kvs \<Rightarrow> JObj (obj_set k v kvs) | _ \<Rightarrow> j)"

text \<open>\<open>String.split\<close> on one separator character.\<close>

fun split_on :: "char \<Rightarrow> string \<Rightarrow> string list" where
  "split_on c [] = [[]]"
| "split_on c (x # xs) =
     (if x = c then [] # split_on c xs
      else (case split_on c xs of [] \<Rightarrow> [[x]] | y # ys \<Rightarrow> (x # y) # ys))"

text \<open>Template-literal rendering of a non-negative integer.\<close>

definition digit :: "nat \<Rightarrow> char" where
  "digit d = ''0123456789'' ! d"

function show_nat :: "nat \<Rightarrow> string" where
  "show_nat n = (if n < 10 then [digit n] else show_nat (n div 10) @ [digit (n mod 10)])"
  by pat_completeness auto
termination
  by (relation "measure id") auto

declare show_nat.simps [simp del]

text \<open>\<open>Buffer.subarray(start, stop)\<close> for \<open>start \<le> stop\<close>, both within the buffer.\<close>

definition subarray :: "byte list \<Rightarrow> nat \<Rightarrow> nat \<Rightarrow> byte list" where
  "subarray buf start stop = take (stop - start) (drop start buf)"

subsection \<open>Framework helpers\<close>

text \<open>
  Modelled from the spec: \<open>helpers.returnJsonArray\<close>, \<open>helpers.constructExecutionMetaData\<close>
  and \<open>helpers.prepareBinaryData\<close> belong to the workflow framework and are not part of
  the node's file. \<open>returnJsonArray\<close> wraps a value into output records, one per element of
  an array and one for any other value; \<open>constructExecutionMetaData\<close> tags each record with
  the originating item index; \<open>prepareBinaryData\<close> builds a binary entry from bytes, an
  optional file name and an optional MIME type.
\<close>

definition json_item :: "json \<Rightarrow> item" where
  "json_item j = \<lparr>item_json = j, item_binary = None, item_pairedItem = None\<rparr>"

definition returnJsonArray :: "json \<Rightarrow> item list" where
  "returnJsonArray j = (case j of JArr xs \<Rightarrow> map json_item xs | _ \<Rightarrow> [json_item j])"

definition constructExecutionMetaData :: "item list \<Rightarrow> nat \<Rightarrow> item list" where
  "constructExecutionMetaData xs i = map (\<lambda>x. x\<lparr>item_pairedItem := Some i\<rparr>) xs"

definition prepareBinaryData :: "env \<Rightarrow> byte list \<Rightarrow> string option \<Rightarrow> string option \<Rightarrow> binary_data" where
  "prepareBinaryData env buf fileName mimeType =
     \<lparr>bin_data = buf, bin_fileName = fileName,
      bin_mimeType = (case mimeType of
                        Some m \<Rightarrow> m
                      | None \<Rightarrow> detectMimeType env buf (case fileName of Some f \<Rightarrow> f | None \<Rightarrow> []))\<rparr>"

text \<open>
  Modelled from the spec: \<open>microsoftApiRequest\<close> (GenericFunctions.ts) issues one HTTPS call
  and either returns the response or throws; it does not retry. \<open>helpers.request\<close> is the
  raw call used for the chunk PUTs.
\<close>

definition send :: "env \<Rightarrow> request \<Rightarrow> exec_state \<Rightarrow> (error \<times> exec_state) + (response \<times> exec_state)" where
  "send env r st =
     (let st' = st\<lparr>calls := calls st @ [r]\<rparr>
      in case server env (calls st) r of
           Inl e \<Rightarrow> Inl (e, st')
         | Inr resp \<Rightarrow> Inr (resp, st'))"

definition microsoftApiRequest ::
  "env \<Rightarrow> string \<Rightarrow> string \<Rightarrow> req_body \<Rightarrow> (string \<rightharpoonup> json) \<Rightarrow> (string \<times> json) list \<Rightarrow> exec_state
    \<Rightarrow> (error \<times> exec_state) + (response \<times> exec_state)" where
  "microsoftApiRequest env method endpoint body query opts st =
     send env \<lparr>req_method = method, req_target = JStr endpoint, req_body = body,
               req_qs = query, req_headers = [], req_options = opts\<rparr> st"

definition microsoftApiRequestAllItems ::
  "env \<Rightarrow> string \<Rightarrow> string \<Rightarrow> req_body \<Rightarrow> (string \<rightharpoonup> json) \<Rightarrow> exec_state
    \<Rightarrow> (error \<times> exec_state) + (json \<times> exec_state)" where
  "microsoftApiRequestAllItems env method endpoint body query st =
     (let r = \<lparr>req_method = method, req_target = JStr endpoint, req_body = body,
               req_qs = query, req_headers = [], req_options = []\<rparr>;
          (res, issued) = fetchAll env (calls st) r;
          st' = st\<lparr>calls := calls st @ issued\<rparr>
      in case res of Inl e \<Rightarrow> Inl (e, st') | Inr v \<Rightarrow> Inr (v, st'))"

definition downloadAttachments_call ::
  "env \<Rightarrow> json \<Rightarrow> string \<Rightarrow> exec_state \<Rightarrow> (error \<times> exec_state) + (item list \<times> exec_state)" where
  "downloadAttachments_call env messages prefix st =
     (let (res, issued) = downloadAttachments env (calls st) messages prefix;
          st' = st\<lparr>calls := calls st @ issued\<rparr>
      in case res of Inl e \<Rightarrow> Inl (e, st') | Inr d \<Rightarrow> Inr (d, st'))"

subsection \<open>The per-item loops\<close>

definition push :: "exec_state \<Rightarrow> item list \<Rightarrow> exec_state" where
  "push st xs = st\<lparr>returnData := returnData st @ xs\<rparr>"

definition success_json :: json where
  "success_json = JObj [(''success'', JBool True)]"

definition error_json :: "error \<Rightarrow> json" where
  "error_json e = JObj [(''error'', JStr (error_message e))]"

text \<open>
  The \<open>for (let i = 0; i < length; i++) { try { ... } catch (error) { ... } }\<close> skeleton of
  the accumulating operations (lines 145-165 and its copies): on an exception, with
  continue-on-fail an error record tagged with \<open>i\<close> is pushed and the loop continues,
  otherwise the exception is thrown again. The loop runs over the indices \<open>[0..<length]\<close>.
\<close>

fun accumulate_loop :: "env \<Rightarrow> (nat \<Rightarrow> exec_state \<Rightarrow> outcome) \<Rightarrow> nat list \<Rightarrow> exec_state \<Rightarrow> outcome" where
  "accumulate_loop env body [] st = Inr (Next st)"
| "accumulate_loop env body (i # is) st =
     (case body i st of
        Inr (Next st') \<Rightarrow> accumulate_loop env body is st'
      | Inr (Return out) \<Rightarrow> Inr (Return out)
      | Inl (e, st') \<Rightarrow>
          if continueOnFail env
          then accumulate_loop env body is
                 (push st' (constructExecutionMetaData (returnJsonArray (error_json e)) i))
          else Inl (e, st'))"

text \<open>The same skeleton for the two operations that change \<open>items\<close> in place (lines 424-472
  and 757-815): the catch block overwrites \<open>items[i].json\<close>.\<close>

fun mutate_loop :: "env \<Rightarrow> (nat \<Rightarrow> exec_state \<Rightarrow> outcome) \<Rightarrow> nat list \<Rightarrow> exec_state \<Rightarrow> outcome" where
  "mutate_loop env body [] st = Inr (Next st)"
| "mutate_loop env body (i # is) st =
     (case body i st of
        Inr (Next st') \<Rightarrow> mutate_loop env body is st'
      | Inr (Return out) \<Rightarrow> Inr (Return out)
      | Inl (e, st') \<Rightarrow>
          if continueOnFail env
          then mutate_loop env body is
                 (st'\<lparr>items := (items st')[i := (items st' ! i)\<lparr>item_json := error_json e\<rparr>]\<rparr>)
          else Inl (e, st'))"

subsection \<open>Operation bodies\<close>

text \<open>\<open>message.delete\<close> (lines 146-153).\<close>

definition message_delete_item :: "env \<Rightarrow> nat \<Rightarrow> exec_state \<Rightarrow> outcome" where
  "message_delete_item env i st =
     (case microsoftApiRequest env ''DELETE'' (''/messages/'' @ messageId env i) NoBody Map.empty [] st of
        Inl x \<Rightarrow> Inl x
      | Inr (responseData, st1) \<Rightarrow>
          Inr (Next (push st1 (constructExecutionMetaData (returnJsonArray success_json) i))))"

text \<open>The two conditional writes to the shared \<open>qs\<close> (lines 174-180, 482-488).\<close>

definition set_select_filter :: "additional_fields \<Rightarrow> exec_state \<Rightarrow> exec_state" where
  "set_select_filter af st =
     (let st1 = (if truthy (af_fields af)
                 then st\<lparr>qs := (qs st)(''$select'' \<mapsto> JStr (the (af_fields af)))\<rparr> else st)
      in if truthy (af_filter af)
         then st1\<lparr>qs := (qs st1)(''$filter'' \<mapsto> JStr (the (af_filter af)))\<rparr> else st1)"

text \<open>\<open>message.get\<close> (lines 170-212). With the attachment prefix set, \<open>execute\<close> returns
  \<open>[returnData]\<close> from inside the loop, right after the records of this item are pushed.\<close>

definition message_get_item :: "env \<Rightarrow> nat \<Rightarrow> exec_state \<Rightarrow> outcome" where
  "message_get_item env i st =
     (let af = additionalFields env i;
          st1 = set_select_filter af st
      in case microsoftApiRequest env ''GET'' (''/messages/'' @ messageId env i) NoBody (qs st1) [] st1 of
           Inl x \<Rightarrow> Inl x
         | Inr (responseData, st2) \<Rightarrow>
             if truthy (af_dataPropertyAttachmentsPrefixName af)
             then (case downloadAttachments_call env (resp_body responseData)
                          (the (af_dataPropertyAttachmentsPrefixName af)) st2 of
                     Inl x \<Rightarrow> Inl x
                   | Inr (data, st3) \<Rightarrow>
                       Inr (Return (returnData (push st3 (constructExecutionMetaData data i)))))
             else Inr (Next (push st2
                    (constructExecutionMetaData (returnJsonArray (resp_body responseData)) i))))"

text \<open>\<open>message.getAll\<close>, one iteration (lines 478-525).\<close>

definition message_getAll_item :: "env \<Rightarrow> nat \<Rightarrow> exec_state \<Rightarrow> outcome" where
  "message_getAll_item env i st =
     (let af = additionalFields env i;
          st1 = set_select_filter af st;
          fetched =
            (if returnAll env i
             then microsoftApiRequestAllItems env ''GET'' ''/messages'' NoBody (qs st1) st1
             else
               (let st2 = st1\<lparr>qs := (qs st1)(''$top'' \<mapsto> JNum (limit env i))\<rparr>
                in case microsoftApiRequest env ''GET'' ''/messages'' NoBody (qs st2) [] st2 of
                     Inl x \<Rightarrow> Inl x
                   | Inr (r, st3) \<Rightarrow>
                       (case get_prop (resp_body r) ''value'' of
                          Inl e \<Rightarrow> Inl (e, st3)
                        | Inr v \<Rightarrow> Inr (v, st3))))
      in case fetched of
           Inl x \<Rightarrow> Inl x
         | Inr (responseData, st4) \<Rightarrow>
             if truthy (af_dataPropertyAttachmentsPrefixName af)
             then (case downloadAttachments_call env responseData
                          (the (af_dataPropertyAttachmentsPrefixName af)) st4 of
                     Inl x \<Rightarrow> Inl x
                   | Inr (data, st5) \<Rightarrow> Inr (Next (push st5 (constructExecutionMetaData data i))))
             else Inr (Next (push st4 (constructExecutionMetaData (returnJsonArray responseData) i))))"

text \<open>The chunk loop of \<open>messageAttachment.add\<close> (lines 701-721): one PUT per chunk of
  \<open>chunkSize\<close> bytes, in increasing offset order.\<close>

definition chunkSize :: nat where
  "chunkSize = 4000000"

definition contentRange :: "nat \<Rightarrow> nat \<Rightarrow> nat \<Rightarrow> string" where
  "contentRange bytesUploaded nextChunk len =
     ''bytes '' @ show_nat bytesUploaded @ ''-'' @ show_nat (nextChunk - 1) @ ''/'' @ show_nat len"

definition chunk_request :: "json \<Rightarrow> byte list \<Rightarrow> nat \<Rightarrow> request" where
  "chunk_request uploadUrl dataBuffer bytesUploaded =
     (let nextChunk = min (bytesUploaded + chunkSize) (length dataBuffer);
          data = subarray dataBuffer bytesUploaded nextChunk
      in \<lparr>req_method = ''PUT'', req_target = uploadUrl, req_body = BytesBody data,
          req_qs = Map.empty,
          req_headers = [(''Content-Type'', JStr ''application/octet-stream''),
                         (''Content-Length'', JNum (int (length data))),
                         (''Content-Range'',
                            JStr (contentRange bytesUploaded nextChunk (length dataBuffer)))],
          req_options = []\<rparr>)"

function upload_chunks :: "env \<Rightarrow> json \<Rightarrow> byte list \<Rightarrow> nat \<Rightarrow> exec_state \<Rightarrow> (error \<times> exec_state) + exec_state" where
  "upload_chunks env uploadUrl dataBuffer bytesUploaded st =
     (if bytesUploaded < length dataBuffer
      then (case send env (chunk_request uploadUrl dataBuffer bytesUploaded) st of
              Inl x \<Rightarrow> Inl x
            | Inr (responseData, st') \<Rightarrow>
                upload_chunks env uploadUrl dataBuffer (bytesUploaded + chunkSize) st')
      else Inr st)"
  by pat_completeness auto
termination
  by (relation "measure (\<lambda>(env, uploadUrl, dataBuffer, bytesUploaded, st). length dataBuffer - bytesUploaded)")
     (auto simp: chunkSize_def)

declare upload_chunks.simps [simp del]

text \<open>\<open>messageAttachment.add\<close> (lines 642-741). The binary property name is read at index
  \<open>0\<close>; the three validation errors come before any request.\<close>

definition session_request :: "string \<Rightarrow> string \<Rightarrow> nat \<Rightarrow> request" where
  "session_request mid fileName len =
     \<lparr>req_method = ''POST'',
      req_target = JStr (''/messages/'' @ mid @ ''/attachments/createUploadSession''),
      req_body = JsonBody (JObj [(''AttachmentItem'',
                   JObj [(''attachmentType'', JStr ''file''), (''name'', JStr fileName),
                         (''size'', JNum (int len))])]),
      req_qs = Map.empty, req_headers = [], req_options = []\<rparr>"

definition small_request :: "env \<Rightarrow> string \<Rightarrow> string \<Rightarrow> byte list \<Rightarrow> request" where
  "small_request env mid fileName dataBuffer =
     \<lparr>req_method = ''POST'',
      req_target = JStr (''/messages/'' @ mid @ ''/attachments''),
      req_body = JsonBody (JObj [(''@odata.type'', JStr ''#microsoft.graph.fileAttachment''),
                                 (''name'', JStr fileName),
                                 (''contentBytes'', JStr (base64 env dataBuffer))]),
      req_qs = Map.empty, req_headers = [], req_options = []\<rparr>"

definition no_binary_error :: error where
  "no_binary_error = NodeOperationError ''No binary data exists on item!''"

definition no_property_error :: "string \<Rightarrow> error" where
  "no_property_error name =
     NodeOperationError (''Item has no binary property called '' @ [CHR 0x22] @ name @ [CHR 0x22])"

definition no_fileName_error :: error where
  "no_fileName_error = NodeOperationError
     (''File name is not set. It has either to be set via '' @ [CHR 0x22] @ ''Additional Fields''
      @ [CHR 0x22] @ '' or has to be set on the binary property!'')"

text \<open>\<open>additionalFields.fileName === undefined ? binaryData.fileName : additionalFields.fileName\<close>
  (lines 661-664).\<close>

definition resolve_fileName :: "additional_fields \<Rightarrow> binary_data \<Rightarrow> string option" where
  "resolve_fileName af binaryData =
     (case af_fileName af of None \<Rightarrow> bin_fileName binaryData | Some f \<Rightarrow> Some f)"

definition messageAttachment_add_item :: "env \<Rightarrow> nat \<Rightarrow> exec_state \<Rightarrow> outcome" where
  "messageAttachment_add_item env i st =
     (let mid = messageId env i;
          name = binaryPropertyName env 0;
          af = additionalFields env i
      in case item_binary (items st ! i) of
           None \<Rightarrow> Inl (no_binary_error, st)
         | Some bin \<Rightarrow>
            (case bin name of
               None \<Rightarrow> Inl (no_property_error name, st)
             | Some binaryData \<Rightarrow>
                (let dataBuffer = bin_data binaryData;
                     fileName = resolve_fileName af binaryData
                 in if \<not> truthy fileName then Inl (no_fileName_error, st)
                    else if length dataBuffer > 3000000
                    then (case send env (session_request mid (the fileName) (length dataBuffer)) st of
                            Inl x \<Rightarrow> Inl x
                          | Inr (responseData, st1) \<Rightarrow>
                             (case get_prop (resp_body responseData) ''uploadUrl'' of
                                Inl e \<Rightarrow> Inl (e, st1)
                              | Inr uploadUrl \<Rightarrow>
                                 if uploadUrl = JUndefined
                                 then Inl (NodeApiError (resp_body responseData)
                                             ''Failed to get upload session'', st1)
                                 else (case upload_chunks env uploadUrl dataBuffer 0 st1 of
                                         Inl x \<Rightarrow> Inl x
                                       | Inr st2 \<Rightarrow>
                                           Inr (Next (push st2 (constructExecutionMetaData
                                                  (returnJsonArray success_json) i))))))
                    else (case send env (small_request env mid (the fileName) dataBuffer) st of
                            Inl x \<Rightarrow> Inl x
                          | Inr (responseData, st1) \<Rightarrow>
                              Inr (Next (push st1 (constructExecutionMetaData
                                     (returnJsonArray success_json) i)))))))"

text \<open>\<open>message.getMime\<close> (lines 426-464): the new item keeps the JSON of the old one and a
  shallow copy of its binary map, and the fetched message is stored under the requested
  property name.\<close>

definition copy_item :: "item \<Rightarrow> item" where
  "copy_item it =
     \<lparr>item_json = item_json it,
      item_binary = Some (case item_binary it of None \<Rightarrow> Map.empty | Some b \<Rightarrow> b),
      item_pairedItem = None\<rparr>"

definition store_binary :: "item \<Rightarrow> string \<Rightarrow> binary_data \<Rightarrow> item" where
  "store_binary it name bd =
     it\<lparr>item_binary := Some ((case item_binary it of None \<Rightarrow> Map.empty | Some b \<Rightarrow> b)(name \<mapsto> bd))\<rparr>"

definition full_response :: "(string \<times> json) list" where
  "full_response = [(''encoding'', JNull), (''resolveWithFullResponse'', JBool True)]"

definition message_getMime_item :: "env \<Rightarrow> nat \<Rightarrow> exec_state \<Rightarrow> outcome" where
  "message_getMime_item env i st =
     (let mid = messageId env i;
          dataPropertyNameDownload = binaryPropertyName env i
      in case microsoftApiRequest env ''GET'' (''/messages/'' @ mid @ ''/$value'') NoBody Map.empty
                full_response st of
           Inl x \<Rightarrow> Inl x
         | Inr (response, st1) \<Rightarrow>
            (let mimeType = (if truthy (resp_headers response ''content-type'')
                             then resp_headers response ''content-type'' else None);
                 newItem = copy_item (items st1 ! i);
                 fileName = mid @ ''.eml'';
                 data = bufferFrom env (resp_body response)
             in Inr (Next (st1\<lparr>items := (items st1)[i :=
                   store_binary newItem dataPropertyNameDownload
                     (prepareBinaryData env data (Some fileName) mimeType)]\<rparr>))))"

text \<open>\<open>messageAttachment.download\<close> (lines 759-807): the metadata request carries its own
  query object, not the shared \<open>qs\<close>. The metadata fields \<open>contentType\<close> and \<open>name\<close> are
  strings when the API supplies them; any other value is taken as absent, and an absent
  name gives an entry without file name.\<close>

definition json_string :: "json \<Rightarrow> string option" where
  "json_string j = (case j of JStr s \<Rightarrow> Some s | _ \<Rightarrow> None)"

definition messageAttachment_download_item :: "env \<Rightarrow> nat \<Rightarrow> exec_state \<Rightarrow> outcome" where
  "messageAttachment_download_item env i st =
     (let mid = messageId env i;
          aid = attachmentId env i;
          dataPropertyNameDownload = binaryPropertyName env i
      in case microsoftApiRequest env ''GET'' (''/messages/'' @ mid @ ''/attachments/'' @ aid) NoBody
                [''$select'' \<mapsto> JStr ''id,name,contentType''] [] st of
           Inl x \<Rightarrow> Inl x
         | Inr (attachmentDetails, st1) \<Rightarrow>
            (case get_prop (resp_body attachmentDetails) ''contentType'' of
               Inl e \<Rightarrow> Inl (e, st1)
             | Inr ct \<Rightarrow>
                (case get_prop (resp_body attachmentDetails) ''name'' of
                   Inl e \<Rightarrow> Inl (e, st1)
                 | Inr nm \<Rightarrow>
                    (let mimeType = (if truthy (json_string ct) then json_string ct else None);
                         fileName = json_string nm
                     in case microsoftApiRequest env ''GET''
                               (''/messages/'' @ mid @ ''/attachments/'' @ aid @ ''/$value'')
                               NoBody Map.empty full_response st1 of
                          Inl x \<Rightarrow> Inl x
                        | Inr (response, st2) \<Rightarrow>
                           (let newItem = copy_item (items st2 ! i);
                                data = bufferFrom env (resp_body response)
                            in Inr (Next (st2\<lparr>items := (items st2)[i :=
                                  store_binary newItem dataPropertyNameDownload
                                    (prepareBinaryData env data fileName mimeType)]\<rparr>)))))))"

text \<open>\<open>draft.update\<close> and \<open>message.update\<close> (lines 230-248).\<close>

definition message_update_item :: "env \<Rightarrow> nat \<Rightarrow> exec_state \<Rightarrow> outcome" where
  "message_update_item env i st =
     (let body = createMessage env (updateFields (parameter env i))
      in case microsoftApiRequest env ''PATCH'' (''/messages/'' @ messageId env i) (JsonBody body)
                Map.empty [] st of
           Inl x \<Rightarrow> Inl x
         | Inr (responseData, st1) \<Rightarrow>
             Inr (Next (push st1
               (constructExecutionMetaData (returnJsonArray (resp_body responseData)) i))))"

text \<open>The attachment step shared by \<open>draft.create\<close> and \<open>message.send\<close> (lines 281-287,
  604-610): with a truthy \<open>additionalFields.attachments\<close>, the message gets the attachments
  that \<open>binaryToAttachments\<close> builds from the items.\<close>

definition with_attachments ::
  "env \<Rightarrow> (string \<times> json) list \<Rightarrow> json \<Rightarrow> nat \<Rightarrow> exec_state \<Rightarrow> error + json" where
  "with_attachments env af body i st =
     (if json_truthy (obj_get af ''attachments'')
      then (case get_prop (obj_get af ''attachments'') ''attachments'' of
              Inl e \<Rightarrow> Inl e
            | Inr attachments \<Rightarrow>
               (case binaryToAttachments env attachments (items st) i of
                  Inl e \<Rightarrow> Inl e
                | Inr data \<Rightarrow> Inr (set_prop body ''attachments'' (JArr data))))
      else Inr body)"

text \<open>\<open>bodyContent || ' '\<close>.\<close>

definition content_or_blank :: "string \<Rightarrow> json" where
  "content_or_blank b = JStr (if b \<noteq> [] then b else '' '')"

text \<open>\<open>draft.create\<close> (lines 268-295).\<close>

definition draft_create_item :: "env \<Rightarrow> nat \<Rightarrow> exec_state \<Rightarrow> outcome" where
  "draft_create_item env i st =
     (let p = parameter env i;
          af = obj_set ''bodyContent'' (content_or_blank (bodyContent p))
                 (obj_set ''subject'' (JStr (subject p)) (fieldsObject p));
          body = createMessage env af
      in case with_attachments env af body i st of
           Inl e \<Rightarrow> Inl (e, st)
         | Inr body' \<Rightarrow>
            (case microsoftApiRequest env ''POST'' ''/messages'' (JsonBody body') Map.empty [] st of
               Inl x \<Rightarrow> Inl x
             | Inr (responseData, st1) \<Rightarrow>
                 Inr (Next (push st1
                   (constructExecutionMetaData (returnJsonArray (resp_body responseData)) i)))))"

text \<open>\<open>draft.send\<close> (lines 313-336): with recipients given, the draft is first patched with
  the non-empty entries of the comma-separated list.\<close>

definition patch_recipients :: "env \<Rightarrow> string \<Rightarrow> (string \<times> json) list \<Rightarrow> exec_state
    \<Rightarrow> (error \<times> exec_state) + exec_state" where
  "patch_recipients env mid af st =
     (if json_truthy (obj_get af ''recipients'')
      then (case obj_get af ''recipients'' of
              JStr s \<Rightarrow>
                (let recipients = filter (\<lambda>email. email \<noteq> []) (split_on CHR '','' s)
                 in if recipients \<noteq> []
                    then (case microsoftApiRequest env ''PATCH'' (''/messages/'' @ mid)
                                 (JsonBody (JObj [(''toRecipients'',
                                    JArr (map (makeRecipient env) recipients))]))
                                 Map.empty [] st of
                            Inl x \<Rightarrow> Inl x
                          | Inr (r, st1) \<Rightarrow> Inr st1)
                    else Inr st)
            | _ \<Rightarrow> Inl (TypeError ''additionalFields.recipients.split is not a function'', st))
      else Inr st)"

definition draft_send_item :: "env \<Rightarrow> nat \<Rightarrow> exec_state \<Rightarrow> outcome" where
  "draft_send_item env i st =
     (let mid = messageId env i;
          af = fieldsObject (parameter env i)
      in case patch_recipients env mid af st of
           Inl x \<Rightarrow> Inl x
         | Inr st1 \<Rightarrow>
            (case microsoftApiRequest env ''POST'' (''/messages/'' @ mid @ ''/send'') NoBody
                    Map.empty [] st1 of
               Inl x \<Rightarrow> Inl x
             | Inr (responseData, st2) \<Rightarrow>
                 Inr (Next (push st2 (constructExecutionMetaData (returnJsonArray success_json) i)))))"

text \<open>\<open>message.reply\<close> (lines 356-408): the reply is created, then each attachment is posted
  to it, then it is sent when \<open>send\<close> is set; the record is the created reply.\<close>

fun post_attachments :: "env \<Rightarrow> json \<Rightarrow> json list \<Rightarrow> exec_state \<Rightarrow> (error \<times> exec_state) + exec_state" where
  "post_attachments env responseData [] st = Inr st"
| "post_attachments env responseData (attachment # rest) st =
     (case get_prop responseData ''id'' of
        Inl e \<Rightarrow> Inl (e, st)
      | Inr rid \<Rightarrow>
         (case microsoftApiRequest env ''POST'' (''/messages/'' @ template env rid @ ''/attachments'')
                 (JsonBody attachment) Map.empty [] st of
            Inl x \<Rightarrow> Inl x
          | Inr (r, st1) \<Rightarrow> post_attachments env responseData rest st1))"

definition reply_attachments :: "env \<Rightarrow> (string \<times> json) list \<Rightarrow> json \<Rightarrow> nat \<Rightarrow> exec_state
    \<Rightarrow> (error \<times> exec_state) + exec_state" where
  "reply_attachments env af responseData i st =
     (if json_truthy (obj_get af ''attachments'')
      then (case get_prop (obj_get af ''attachments'') ''attachments'' of
              Inl e \<Rightarrow> Inl (e, st)
            | Inr attachments \<Rightarrow>
               (case binaryToAttachments env attachments (items st) i of
                  Inl e \<Rightarrow> Inl (e, st)
                | Inr data \<Rightarrow> post_attachments env responseData data st))
      else Inr st)"

definition send_reply :: "env \<Rightarrow> bool \<Rightarrow> json \<Rightarrow> exec_state \<Rightarrow> (error \<times> exec_state) + exec_state" where
  "send_reply env flag responseData st =
     (if flag
      then (case get_prop responseData ''id'' of
              Inl e \<Rightarrow> Inl (e, st)
            | Inr rid \<Rightarrow>
               (case microsoftApiRequest env ''POST'' (''/messages/'' @ template env rid @ ''/send'')
                       NoBody Map.empty [] st of
                  Inl x \<Rightarrow> Inl x
                | Inr (r, st1) \<Rightarrow> Inr st1))
      else Inr st)"

definition message_reply_item :: "env \<Rightarrow> nat \<Rightarrow> exec_state \<Rightarrow> outcome" where
  "message_reply_item env i st =
     (let mid = messageId env i;
          p = parameter env i;
          af = fieldsObject p;
          body = (if replyType p = ''replyAll''
                  then [(''comment'', JStr (comment p))]
                  else [(''comment'', JStr (comment p)),
                        (''message'', JObj (obj_delete ''attachments'' (fields_of (createMessage env af))))]);
          action = (if replyType p = ''replyAll'' then ''createReplyAll'' else ''createReply'')
      in case microsoftApiRequest env ''POST'' (''/messages/'' @ mid @ ''/'' @ action)
                (JsonBody (JObj body)) Map.empty [] st of
           Inl x \<Rightarrow> Inl x
         | Inr (responseData, st1) \<Rightarrow>
            (case reply_attachments env af (resp_body responseData) i st1 of
               Inl x \<Rightarrow> Inl x
             | Inr st2 \<Rightarrow>
                (case send_reply env (send_flag p) (resp_body responseData) st2 of
                   Inl x \<Rightarrow> Inl x
                 | Inr st3 \<Rightarrow>
                     Inr (Next (push st3
                       (constructExecutionMetaData (returnJsonArray (resp_body responseData)) i))))))"

text \<open>\<open>message.move\<close> (lines 547-563).\<close>

definition message_move_item :: "env \<Rightarrow> nat \<Rightarrow> exec_state \<Rightarrow> outcome" where
  "message_move_item env i st =
     (case microsoftApiRequest env ''POST'' (''/messages/'' @ messageId env i @ ''/move'')
             (JsonBody (JObj [(''destinationId'', JStr (folderId (parameter env i)))]))
             Map.empty [] st of
        Inl x \<Rightarrow> Inl x
      | Inr (responseData, st1) \<Rightarrow>
          Inr (Next (push st1 (constructExecutionMetaData (returnJsonArray success_json) i))))"

text \<open>\<open>message.send\<close> (lines 581-622).\<close>

definition message_send_item :: "env \<Rightarrow> nat \<Rightarrow> exec_state \<Rightarrow> outcome" where
  "message_send_item env i st =
     (let p = parameter env i;
          af1 = obj_set ''toRecipients'' (JStr (toRecipients p))
                  (obj_set ''bodyContent'' (content_or_blank (bodyContent p))
                     (obj_set ''subject'' (JStr (subject p)) (fieldsObject p)));
          saveToSentItems = (if obj_get af1 ''saveToSentItems'' = JUndefined then JBool True
                             else obj_get af1 ''saveToSentItems'');
          af = obj_delete ''saveToSentItems'' af1;
          message = createMessage env af
      in case with_attachments env af message i st of
           Inl e \<Rightarrow> Inl (e, st)
         | Inr message' \<Rightarrow>
            (case microsoftApiRequest env ''POST'' ''/sendMail''
                    (JsonBody (JObj [(''message'', message'), (''saveToSentItems'', saveToSentItems)]))
                    Map.empty [] st of
               Inl x \<Rightarrow> Inl x
             | Inr (responseData, st1) \<Rightarrow>
                 Inr (Next (push st1 (constructExecutionMetaData (returnJsonArray success_json) i)))))"

text \<open>\<open>messageAttachment.get\<close> and \<open>messageAttachment.getAll\<close> (lines 821-842, 860-893):
  \<open>$select\<close> is first set to a default on the shared \<open>qs\<close>.\<close>

definition set_default_select :: "additional_fields \<Rightarrow> exec_state \<Rightarrow> exec_state" where
  "set_default_select af st =
     (let st1 = st\<lparr>qs := (qs st)(''$select'' \<mapsto>
                   JStr ''id,lastModifiedDateTime,name,contentType,size,isInline'')\<rparr>
      in if truthy (af_fields af)
         then st1\<lparr>qs := (qs st1)(''$select'' \<mapsto> JStr (the (af_fields af)))\<rparr> else st1)"

definition set_filter :: "additional_fields \<Rightarrow> exec_state \<Rightarrow> exec_state" where
  "set_filter af st =
     (if truthy (af_filter af)
      then st\<lparr>qs := (qs st)(''$filter'' \<mapsto> JStr (the (af_filter af)))\<rparr> else st)"

definition messageAttachment_get_item :: "env \<Rightarrow> nat \<Rightarrow> exec_state \<Rightarrow> outcome" where
  "messageAttachment_get_item env i st =
     (let st1 = set_default_select (additionalFields env i) st
      in case microsoftApiRequest env ''GET''
                (''/messages/'' @ messageId env i @ ''/attachments/'' @ attachmentId env i)
                NoBody (qs st1) [] st1 of
           Inl x \<Rightarrow> Inl x
         | Inr (responseData, st2) \<Rightarrow>
             Inr (Next (push st2
               (constructExecutionMetaData (returnJsonArray (resp_body responseData)) i))))"

text \<open>The list fetch shared by the \<open>getAll\<close> operations without attachment download:
  all pages through the pagination helper when \<open>returnAll\<close> is set, otherwise one request
  limited by \<open>$top\<close> whose \<open>value\<close> field is the list. \<open>allBody\<close> and \<open>allQuery\<close> are what the
  call of the pagination helper passes as request body and as query.\<close>

definition fetch_list ::
  "env \<Rightarrow> nat \<Rightarrow> string \<Rightarrow> req_body \<Rightarrow> (string \<rightharpoonup> json) \<Rightarrow> req_body \<Rightarrow> exec_state
    \<Rightarrow> (error \<times> exec_state) + (json \<times> exec_state)" where
  "fetch_list env i endpoint allBody allQuery topBody st =
     (if returnAll env i
      then microsoftApiRequestAllItems env ''GET'' endpoint allBody allQuery st
      else
        (let st1 = st\<lparr>qs := (qs st)(''$top'' \<mapsto> JNum (limit env i))\<rparr>
         in case microsoftApiRequest env ''GET'' endpoint topBody (qs st1) [] st1 of
              Inl x \<Rightarrow> Inl x
            | Inr (r, st2) \<Rightarrow>
                (case get_prop (resp_body r) ''value'' of
                   Inl e \<Rightarrow> Inl (e, st2)
                 | Inr v \<Rightarrow> Inr (v, st2))))"

definition push_list :: "nat \<Rightarrow> (error \<times> exec_state) + (json \<times> exec_state) \<Rightarrow> outcome" where
  "push_list i fetched =
     (case fetched of
        Inl x \<Rightarrow> Inl x
      | Inr (responseData, st) \<Rightarrow>
          Inr (Next (push st (constructExecutionMetaData (returnJsonArray responseData) i))))"

definition messageAttachment_getAll_item :: "env \<Rightarrow> nat \<Rightarrow> exec_state \<Rightarrow> outcome" where
  "messageAttachment_getAll_item env i st =
     (let af = additionalFields env i;
          st1 = set_filter af (set_default_select af st)
      in push_list i
           (fetch_list env i (''/messages/'' @ messageId env i @ ''/attachments'')
              NoBody (qs st1) NoBody st1))"

text \<open>\<open>folder.create\<close> (lines 913-939).\<close>

definition folder_create_item :: "env \<Rightarrow> nat \<Rightarrow> exec_state \<Rightarrow> outcome" where
  "folder_create_item env i st =
     (let p = parameter env i;
          body = [(''displayName'', JStr (displayName p))];
          search = (folderType p = ''searchFolder'');
          endpoint = (if search then ''/mailFolders/searchfolders/childFolders'' else ''/mailFolders'');
          body' = (if search
                   then obj_set ''filterQuery'' (filterQuery p)
                          (obj_set ''sourceFolderIds'' (sourceFolderIds p)
                             (obj_set ''includeNestedFolders'' (includeNestedFolders p)
                                (obj_set ''@odata.type'' (JStr ''microsoft.graph.mailSearchFolder'') body)))
                   else body)
      in case microsoftApiRequest env ''POST'' endpoint (JsonBody (JObj body')) Map.empty [] st of
           Inl x \<Rightarrow> Inl x
         | Inr (responseData, st1) \<Rightarrow>
             Inr (Next (push st1
               (constructExecutionMetaData (returnJsonArray (resp_body responseData)) i))))"

text \<open>\<open>folder.delete\<close> (lines 957-967).\<close>

definition folder_delete_item :: "env \<Rightarrow> nat \<Rightarrow> exec_state \<Rightarrow> outcome" where
  "folder_delete_item env i st =
     (case microsoftApiRequest env ''DELETE'' (''/mailFolders/'' @ folderId (parameter env i)) NoBody
             Map.empty [] st of
        Inl x \<Rightarrow> Inl x
      | Inr (responseData, st1) \<Rightarrow>
          Inr (Next (push st1 (constructExecutionMetaData (returnJsonArray success_json) i))))"

text \<open>\<open>folder.get\<close> (lines 985-1006).\<close>

definition folder_get_item :: "env \<Rightarrow> nat \<Rightarrow> exec_state \<Rightarrow> outcome" where
  "folder_get_item env i st =
     (let st1 = set_select_filter (additionalFields env i) st
      in case microsoftApiRequest env ''GET'' (''/mailFolders/'' @ folderId (parameter env i))
                (JsonBody (JObj [])) (qs st1) [] st1 of
           Inl x \<Rightarrow> Inl x
         | Inr (responseData, st2) \<Rightarrow>
             Inr (Next (push st2
               (constructExecutionMetaData (returnJsonArray (resp_body responseData)) i))))"

text \<open>\<open>folder.getAll\<close> (lines 1024-1053).\<close>

definition folder_getAll_item :: "env \<Rightarrow> nat \<Rightarrow> exec_state \<Rightarrow> outcome" where
  "folder_getAll_item env i st =
     (let st1 = set_select_filter (additionalFields env i) st
      in push_list i
           (fetch_list env i ''/mailFolders'' (JsonBody (JObj [])) (qs st1) (JsonBody (JObj [])) st1))"

text \<open>\<open>folder.getChildren\<close> (lines 1071-1106) and \<open>folderMessage.getAll\<close> (lines 1161-1191):
  the call of the pagination helper has \<open>qs\<close> in the position of the request body and no
  query.\<close>

definition folder_getChildren_item :: "env \<Rightarrow> nat \<Rightarrow> exec_state \<Rightarrow> outcome" where
  "folder_getChildren_item env i st =
     (let st1 = set_select_filter (additionalFields env i) st
      in push_list i
           (fetch_list env i (''/mailFolders/'' @ folderId (parameter env i) @ ''/childFolders'')
              (QueryBody (qs st1)) Map.empty NoBody st1))"

definition folderMessage_getAll_item :: "env \<Rightarrow> nat \<Rightarrow> exec_state \<Rightarrow> outcome" where
  "folderMessage_getAll_item env i st =
     (let st1 = set_select_filter (additionalFields env i) st
      in push_list i
           (fetch_list env i (''/mailFolders/'' @ folderId (parameter env i) @ ''/messages'')
              (QueryBody (qs st1)) Map.empty NoBody st1))"

text \<open>\<open>folder.update\<close> (lines 1124-1141).\<close>

definition folder_update_item :: "env \<Rightarrow> nat \<Rightarrow> exec_state \<Rightarrow> outcome" where
  "folder_update_item env i st =
     (case microsoftApiRequest env ''PATCH'' (''/mailFolders/'' @ folderId (parameter env i))
             (JsonBody (JObj (updateFields (parameter env i)))) Map.empty [] st of
        Inl x \<Rightarrow> Inl x
      | Inr (responseData, st1) \<Rightarrow>
          Inr (Next (push st1
            (constructExecutionMetaData (returnJsonArray (resp_body responseData)) i))))"

subsection \<open>\<open>execute\<close>\<close>

text \<open>The per-item loops of \<open>execute\<close>, one constructor each. For a resource/operation pair
  exactly one loop runs; \<open>Message_delete\<close>, \<open>Message_get\<close> and \<open>Message_update\<close> are the
  loops shared by the resources \<open>draft\<close> and \<open>message\<close> (line 143).\<close>

datatype operation =
    Message_delete
  | Message_get
  | Message_update
  | Draft_create
  | Draft_send
  | Message_reply
  | Message_getMime
  | Message_getAll
  | Message_move
  | Message_send
  | MessageAttachment_add
  | MessageAttachment_download
  | MessageAttachment_get
  | MessageAttachment_getAll
  | Folder_create
  | Folder_delete
  | Folder_get
  | Folder_getAll
  | Folder_getChildren
  | Folder_update
  | FolderMessage_getAll

definition initial_state :: "item list \<Rightarrow> exec_state" where
  "initial_state items0 = \<lparr>items = items0, returnData = [], qs = Map.empty, calls = []\<rparr>"

definition empty_fields :: additional_fields where
  "empty_fields = \<lparr>af_fields = None, af_filter = None,
                   af_dataPropertyAttachmentsPrefixName = None, af_fileName = None\<rparr>"

text \<open>The variable \<open>additionalFields\<close> of \<open>message.getAll\<close> is declared before the loop
  (line 476) and assigned in every iteration; this is its value after the loop.\<close>

definition getAll_additionalFields :: "env \<Rightarrow> nat \<Rightarrow> additional_fields" where
  "getAll_additionalFields env n = (if n = 0 then empty_fields else additionalFields env (n - 1))"

definition item_body :: "env \<Rightarrow> operation \<Rightarrow> nat \<Rightarrow> exec_state \<Rightarrow> outcome" where
  "item_body env op =
     (case op of
        Message_delete \<Rightarrow> message_delete_item env
      | Message_get \<Rightarrow> message_get_item env
      | Message_update \<Rightarrow> message_update_item env
      | Draft_create \<Rightarrow> draft_create_item env
      | Draft_send \<Rightarrow> draft_send_item env
      | Message_reply \<Rightarrow> message_reply_item env
      | Message_getMime \<Rightarrow> message_getMime_item env
      | Message_getAll \<Rightarrow> message_getAll_item env
      | Message_move \<Rightarrow> message_move_item env
      | Message_send \<Rightarrow> message_send_item env
      | MessageAttachment_add \<Rightarrow> messageAttachment_add_item env
      | MessageAttachment_download \<Rightarrow> messageAttachment_download_item env
      | MessageAttachment_get \<Rightarrow> messageAttachment_get_item env
      | MessageAttachment_getAll \<Rightarrow> messageAttachment_getAll_item env
      | Folder_create \<Rightarrow> folder_create_item env
      | Folder_delete \<Rightarrow> folder_delete_item env
      | Folder_get \<Rightarrow> folder_get_item env
      | Folder_getAll \<Rightarrow> folder_getAll_item env
      | Folder_getChildren \<Rightarrow> folder_getChildren_item env
      | Folder_update \<Rightarrow> folder_update_item env
      | FolderMessage_getAll \<Rightarrow> folderMessage_getAll_item env)"

text \<open>The operations whose iteration pushes one record per element of a fetched list.\<close>

definition spreads_list :: "operation \<Rightarrow> bool" where
  "spreads_list op = (op = Message_getAll \<or> op = MessageAttachment_getAll \<or> op = Folder_getAll
                      \<or> op = Folder_getChildren \<or> op = FolderMessage_getAll)"

definition in_place :: "operation \<Rightarrow> bool" where
  "in_place op = (op = Message_getMime \<or> op = MessageAttachment_download)"

definition run_operation :: "env \<Rightarrow> operation \<Rightarrow> item list \<Rightarrow> outcome" where
  "run_operation env op items0 =
     (let st = initial_state items0;
          indices = [0..<length items0]
      in if in_place op then mutate_loop env (item_body env op) indices st
         else if op = Message_getAll
         then (case accumulate_loop env (item_body env op) indices st of
                 Inr (Next st') \<Rightarrow>
                   if truthy (af_dataPropertyAttachmentsPrefixName
                                (getAll_additionalFields env (length items0)))
                   then Inr (Return (returnData st'))
                   else Inr (Next st')
               | r \<Rightarrow> r)
         else accumulate_loop env (item_body env op) indices st)"

text \<open>The result of \<open>execute\<close>: the thrown error, or the single output branch. The final fork
  (lines 1207-1214) returns \<open>items\<close> for the two in-place operations and \<open>returnData\<close> for
  all others.\<close>

definition execute :: "env \<Rightarrow> operation \<Rightarrow> item list \<Rightarrow> error + item list" where
  "execute env op items0 =
     (case run_operation env op items0 of
        Inl (e, st) \<Rightarrow> Inl e
      | Inr (Return out) \<Rightarrow> Inr out
      | Inr (Next st) \<Rightarrow> if in_place op then Inr (items st) else Inr (returnData st))"

subsection \<open>Observations on results\<close>

text \<open>The request log and the state an iteration or a loop ends with, the bytes and headers
  of a request, and the length and origin indices of the output of \<open>execute\<close>.\<close>

definition outcome_state :: "outcome \<Rightarrow> exec_state option" where
  "outcome_state r =
     (case r of Inl (e, st) \<Rightarrow> Some st | Inr (Next st) \<Rightarrow> Some st | Inr (Return out) \<Rightarrow> None)"

definition outcome_calls :: "outcome \<Rightarrow> request list" where
  "outcome_calls r = (case outcome_state r of Some st \<Rightarrow> calls st | None \<Rightarrow> [])"

definition body_bytes :: "request \<Rightarrow> byte list" where
  "body_bytes r = (case req_body r of BytesBody b \<Rightarrow> b | _ \<Rightarrow> [])"

definition header :: "request \<Rightarrow> string \<Rightarrow> json option" where
  "header r k = map_of (req_headers r) k"

definition output_length :: "error + item list \<Rightarrow> nat option" where
  "output_length r = (case r of Inl e \<Rightarrow> None | Inr out \<Rightarrow> Some (length out))"

definition output_origins :: "error + item list \<Rightarrow> nat option list" where
  "output_origins r = (case r of Inl e \<Rightarrow> [] | Inr out \<Rightarrow> map item_pairedItem out)"

subsection \<open>Example inputs\<close>

definition session_response :: response where
  "session_response = \<lparr>resp_headers = Map.empty,
     resp_body = JObj [(''uploadUrl'', JStr ''https://upload.example/session'')]\<rparr>"

definition example_parameters :: parameters where
  "example_parameters = \<lparr>folderId = ''f'', subject = ''Hello'', bodyContent = ''Text'',
     toRecipients = ''a@example.com'', replyType = ''reply'', comment = ''Thanks'',
     send_flag = False, displayName = ''Inbox 2'', folderType = ''folder'',
     includeNestedFolders = JBool False, sourceFolderIds = JArr [], filterQuery = JStr [],
     fieldsObject = [], updateFields = []\<rparr>"

definition example_env :: env where
  "example_env = \<lparr>continueOnFail = True, messageId = (\<lambda>i. ''m''), attachmentId = (\<lambda>i. ''a''),
     binaryPropertyName = (\<lambda>i. ''data''), additionalFields = (\<lambda>i. empty_fields),
     returnAll = (\<lambda>i. False), limit = (\<lambda>i. 10),
     server = (\<lambda>log r. Inr session_response),
     fetchAll = (\<lambda>log r. (Inr (JArr []), [r])),
     downloadAttachments = (\<lambda>log m p. (Inr [json_item m], [])),
     base64 = (\<lambda>b. []), bufferFrom = (\<lambda>j. []), detectMimeType = (\<lambda>b f. ''text/plain''),
     parameter = (\<lambda>i. example_parameters),
     createMessage = JObj,
     binaryToAttachments = (\<lambda>atts its i. Inr []),
     makeRecipient = (\<lambda>a. JObj [(''emailAddress'', JObj [(''address'', JStr a)])]),
     template = (\<lambda>j. case j of JStr t \<Rightarrow> t | _ \<Rightarrow> ''undefined'')\<rparr>"

definition zero_data :: "nat \<Rightarrow> binary_data" where
  "zero_data n = \<lparr>bin_data = replicate n 0, bin_fileName = Some ''a.bin'',
                  bin_mimeType = ''application/octet-stream''\<rparr>"

definition zero_item :: "nat \<Rightarrow> item" where
  "zero_item n = \<lparr>item_json = JObj [], item_binary = Some [''data'' \<mapsto> zero_data n],
                  item_pairedItem = None\<rparr>"

definition plain_item :: item where
  "plain_item = \<lparr>item_json = JObj [], item_binary = None, item_pairedItem = None\<rparr>"

definition no_url_env :: env where
  "no_url_env = example_env\<lparr>server := (\<lambda>log r. Inr \<lparr>resp_headers = Map.empty, resp_body = JObj []\<rparr>)\<rparr>"

text \<open>The requests an item issued after its first one, between two states.\<close>

definition later_requests :: "exec_state \<Rightarrow> exec_state \<Rightarrow> request list" where
  "later_requests st st' = drop (Suc (length (calls st))) (calls st')"

definition example_uploaded :: exec_state where
  "example_uploaded = the (outcome_state
     (messageAttachment_add_item example_env 0 (initial_state [zero_item 9000000])))"

definition two_fields_item :: item where
  "two_fields_item = \<lparr>item_json = JObj [],
     item_binary = Some [''a'' \<mapsto> \<lparr>bin_data = [1, 2, 3], bin_fileName = Some ''a.bin'',
                                     bin_mimeType = ''application/octet-stream''\<rparr>,
                         ''b'' \<mapsto> \<lparr>bin_data = [9], bin_fileName = Some ''b.bin'',
                                     bin_mimeType = ''application/octet-stream''\<rparr>],
     item_pairedItem = None\<rparr>"

definition field_a_env :: env where
  "field_a_env = example_env\<lparr>binaryPropertyName := (\<lambda>i. ''a''),
     base64 := (\<lambda>b. if b = [1, 2, 3] then ''AQID'' else if b = [9] then ''CQ=='' else [])\<rparr>"

definition own_names :: "nat \<Rightarrow> string" where
  "own_names i = (if i = 0 then ''a'' else ''b'')"

text \<open>Three items for \<open>message.getAll\<close>: item \<open>0\<close> asks for a field selection, a filter and
  at most 5 messages; item \<open>1\<close> asks for at most 7 messages and nothing else; item \<open>2\<close> asks
  for all messages and nothing else. In \<open>plain_getAll_env\<close> item \<open>0\<close> sets no selection
  and no filter; items \<open>1\<close> and \<open>2\<close> have the same parameters in both.\<close>

definition selecting_fields :: additional_fields where
  "selecting_fields = empty_fields\<lparr>af_fields := Some ''subject'', af_filter := Some ''isRead eq false''\<rparr>"

definition plain_getAll_env :: env where
  "plain_getAll_env = example_env\<lparr>
     returnAll := (\<lambda>i. i = 2),
     limit := (\<lambda>i. if i = 0 then 5 else 7),
     server := (\<lambda>log r. Inr \<lparr>resp_headers = Map.empty, resp_body = JObj [(''value'', JArr [])]\<rparr>)\<rparr>"

definition leaking_getAll_env :: env where
  "leaking_getAll_env = plain_getAll_env\<lparr>
     additionalFields := (\<lambda>i. if i = 0 then selecting_fields else empty_fields)\<rparr>"

definition query_of :: "request \<Rightarrow> json option \<times> json option \<times> json option" where
  "query_of r = (req_qs r ''$select'', req_qs r ''$filter'', req_qs r ''$top'')"

text \<open>The named binary field of an item, and of an output item of \<open>execute\<close>.\<close>

definition binary_field :: "item \<Rightarrow> string \<Rightarrow> binary_data option" where
  "binary_field it k = (case item_binary it of None \<Rightarrow> None | Some b \<Rightarrow> b k)"

definition output_field :: "error + item list \<Rightarrow> nat \<Rightarrow> string \<Rightarrow> binary_data option" where
  "output_field r i k = (case r of Inl e \<Rightarrow> None | Inr out \<Rightarrow> binary_field (out ! i) k)"

text \<open>An item that carries a binary field \<open>invoice\<close>, and two servers for \<open>message.getMime\<close>:
  one answers with a content type, the other with an empty content-type header.\<close>

definition invoice_data :: binary_data where
  "invoice_data = \<lparr>bin_data = [37, 80, 68, 70], bin_fileName = Some ''invoice.pdf'',
                   bin_mimeType = ''application/pdf''\<rparr>"

definition invoice_item :: item where
  "invoice_item = \<lparr>item_json = JObj [(''id'', JNum 1)], item_binary = Some [''invoice'' \<mapsto> invoice_data],
                   item_pairedItem = None\<rparr>"

definition mime_response :: "string \<Rightarrow> response" where
  "mime_response ct = \<lparr>resp_headers = [''content-type'' \<mapsto> ct], resp_body = JStr ''MIME-Version: 1.0''\<rparr>"

definition mime_env :: env where
  "mime_env = example_env\<lparr>server := (\<lambda>log r. Inr (mime_response ''message/rfc822''))\<rparr>"

definition overwrite_env :: env where
  "overwrite_env = example_env\<lparr>binaryPropertyName := (\<lambda>i. ''invoice''),
     server := (\<lambda>log r. Inr (mime_response []))\<rparr>"

text \<open>The output list of \<open>execute\<close>, empty when it threw; whether a value is an array.\<close>

definition the_output :: "error + item list \<Rightarrow> item list" where
  "the_output r = (case r of Inl e \<Rightarrow> [] | Inr out \<Rightarrow> out)"

definition is_array :: "json \<Rightarrow> bool" where
  "is_array j = (case j of JArr xs \<Rightarrow> True | _ \<Rightarrow> False)"

text \<open>A server that knows every message but \<open>bad\<close>, and parameters that name \<open>bad\<close> for
  the item at one index.\<close>

definition not_found :: error where
  "not_found = NodeApiError (JObj [(''code'', JStr ''ErrorItemNotFound'')]) ''The resource could not be found.''"

definition picky_server :: "request list \<Rightarrow> request \<Rightarrow> error + response" where
  "picky_server log r =
     (if req_target r = JStr ''/messages/bad'' \<or> req_target r = JStr ''/messages/bad/$value''
      then Inl not_found else Inr (mime_response ''message/rfc822''))"

definition bad_at :: "nat \<Rightarrow> bool \<Rightarrow> env" where
  "bad_at k cof = example_env\<lparr>continueOnFail := cof,
     messageId := (\<lambda>i. if i = k then ''bad'' else ''m''), server := picky_server\<rparr>"

text \<open>Parameters that set the attachment prefix on every item, and a server whose message
  list holds two messages.\<close>

definition prefix_env :: env where
  "prefix_env = example_env\<lparr>additionalFields :=
     (\<lambda>i. empty_fields\<lparr>af_dataPropertyAttachmentsPrefixName := Some ''attachment_''\<rparr>)\<rparr>"

definition two_messages_env :: env where
  "two_messages_env = example_env\<lparr>server := (\<lambda>log r. Inr \<lparr>resp_headers = Map.empty,
     resp_body = JObj [(''value'', JArr [JObj [(''id'', JStr ''a'')], JObj [(''id'', JStr ''b'')]])]\<rparr>)\<rparr>"

text \<open>What a successful iteration pushes: the success marker, or the body of a response
  of the server.\<close>

definition pushed :: "env \<Rightarrow> nat \<Rightarrow> exec_state \<Rightarrow> exec_state \<Rightarrow> bool" where
  "pushed env i st st' =
     (\<exists>j. returnData st' = returnData st @ constructExecutionMetaData (returnJsonArray j) i
         \<and> (j = success_json \<or> (\<exists>log r resp. server env log r = Inr resp \<and> j = resp_body resp)))"

text \<open>The loop of an operation over a list of indices.\<close>

definition op_loop :: "env \<Rightarrow> operation \<Rightarrow> nat list \<Rightarrow> exec_state \<Rightarrow> outcome" where
  "op_loop env op ixs st =
     (if in_place op then mutate_loop env (item_body env op) ixs st
      else accumulate_loop env (item_body env op) ixs st)"

definition five_items :: "item list" where
  "five_items = [plain_item, plain_item, plain_item, plain_item, plain_item]"

definition three_items :: "item list" where
  "three_items = [plain_item, plain_item, plain_item]"

section \<open>Properties\<close>

subsection \<open>Requests and the chunk loop\<close>

lemma send_Inr: "send env r st = Inr (resp, st') \<Longrightarrow> st' = st\<lparr>calls := calls st @ [r]\<rparr> \<and> server env (calls st) r = Inr resp"
  by (auto simp: send_def Let_def split: sum.splits)

lemma send_Inl: "send env r st = Inl (e, st') \<Longrightarrow> st' = st\<lparr>calls := calls st @ [r]\<rparr> \<and> server env (calls st) r = Inl e"
  by (auto simp: send_def Let_def split: sum.splits)

lemma upt_Suc_shift: "map f [0..<Suc n] = f 0 # map (\<lambda>k. f (Suc k)) [0..<n]"
proof -
  have "[0..<Suc n] = 0 # [Suc 0..<Suc n]"
    by (rule upt_conv_Cons) simp
  also have "[Suc 0..<Suc n] = map Suc [0..<n]"
    by (rule map_Suc_upt[symmetric])
  finally show ?thesis by (simp add: comp_def del: upt_Suc)
qed

lemma chunkSize_pos: "0 < chunkSize"
  by (simp add: chunkSize_def)

lemma ceil_step:
  fixes c d :: nat
  assumes "0 < c" "0 < d"
  shows "(d + c - 1) div c = Suc ((d - c + c - 1) div c)"
proof (cases "d \<le> c")
  case True
  obtain d' where d': "d = Suc d'" using assms(2) by (cases d) auto
  have "d' < c" using True d' by simp
  then have "d' div c = 0" by simp
  then have "(d' + c) div c = Suc 0" using assms(1) div_add_self2[of c d'] by simp
  moreover obtain c' where c': "c = Suc c'" using assms(1) by (cases c) auto
  have "(d - c + c - 1) div c = 0" using True c' by simp
  ultimately show ?thesis using d' by simp
next
  case False
  then obtain e where e: "d = c + Suc e"
    using less_imp_Suc_add[of c d] by auto
  have "(d + c - 1) div c = (e + c + c) div c" using e by (simp add: ac_simps)
  also have "\<dots> = Suc ((e + c) div c)" using assms(1) div_add_self2[of c "e + c"] by simp
  also have "e + c = d - c + c - 1" using e by simp
  finally show ?thesis .
qed

lemma chunk_count_step:
  assumes "off < len"
  shows "(len - off + chunkSize - 1) div chunkSize = Suc ((len - (off + chunkSize) + chunkSize - 1) div chunkSize)"
proof -
  have "0 < len - off" using assms by simp
  from ceil_step[OF chunkSize_pos this] show ?thesis by (simp only: diff_diff_left)
qed

lemma chunk_count_zero: "\<not> off < len \<Longrightarrow> (len - off + chunkSize - 1) div chunkSize = 0"
  using chunkSize_pos by simp

lemma upload_chunks_Inr:
  "upload_chunks env url buf off st = Inr st' \<Longrightarrow>
   st' = st\<lparr>calls := calls st @ map (\<lambda>k. chunk_request url buf (off + k * chunkSize))
                         [0..<(length buf - off + chunkSize - 1) div chunkSize]\<rparr>"
proof (induction env url buf off st rule: upload_chunks.induct)
  case (1 env url buf off st)
  show ?case
  proof (cases "off < length buf")
    case False
    then have "(length buf - off + chunkSize - 1) div chunkSize = 0"
      by (rule chunk_count_zero)
    with False "1.prems" show ?thesis
      by (simp add: upload_chunks.simps)
  next
    case True
    from True "1.prems" obtain resp st1 where
      s: "send env (chunk_request url buf off) st = Inr (resp, st1)"
      and r: "upload_chunks env url buf (off + chunkSize) st1 = Inr st'"
      by (subst (asm) upload_chunks.simps) (auto split: sum.splits)
    from "1.IH"[OF True s refl r]
    have "st' = st1\<lparr>calls := calls st1 @ map (\<lambda>k. chunk_request url buf (off + chunkSize + k * chunkSize))
                         [0..<(length buf - (off + chunkSize) + chunkSize - 1) div chunkSize]\<rparr>" .
    moreover from send_Inr[OF s] have "st1 = st\<lparr>calls := calls st @ [chunk_request url buf off]\<rparr>" by simp
    ultimately have "st' = st\<lparr>calls := calls st @ chunk_request url buf off #
        map (\<lambda>k. chunk_request url buf (off + chunkSize + k * chunkSize))
          [0..<(length buf - (off + chunkSize) + chunkSize - 1) div chunkSize]\<rparr>"
      by simp
    moreover have "map (\<lambda>k. chunk_request url buf (off + k * chunkSize))
          [0..<(length buf - off + chunkSize - 1) div chunkSize] =
        chunk_request url buf off #
        map (\<lambda>k. chunk_request url buf (off + chunkSize + k * chunkSize))
          [0..<(length buf - (off + chunkSize) + chunkSize - 1) div chunkSize]"
      unfolding chunk_count_step[OF True] upt_Suc_shift by (simp add: ac_simps)
    ultimately show ?thesis by simp
  qed
qed

lemma upload_chunks_Inl:
  "upload_chunks env url buf off st = Inl (e, st') \<Longrightarrow>
   \<exists>n. st' = st\<lparr>calls := calls st @ map (\<lambda>k. chunk_request url buf (off + k * chunkSize)) [0..<n]\<rparr>"
proof (induction env url buf off st rule: upload_chunks.induct)
  case (1 env url buf off st)
  show ?case
  proof (cases "off < length buf")
    case False
    with "1.prems" show ?thesis by (simp add: upload_chunks.simps)
  next
    case True
    show ?thesis
    proof (cases "send env (chunk_request url buf off) st")
      case (Inl x)
      with True "1.prems" have x: "x = (e, st')"
        by (subst (asm) upload_chunks.simps) simp
      from send_Inl[OF Inl[unfolded x]]
      have "st' = st\<lparr>calls := calls st @ map (\<lambda>k. chunk_request url buf (off + k * chunkSize)) [0..<Suc 0]\<rparr>"
        by simp
      then show ?thesis by blast
    next
      case (Inr y)
      obtain resp st1 where y: "y = (resp, st1)" by (cases y)
      from True "1.prems" Inr y have r: "upload_chunks env url buf (off + chunkSize) st1 = Inl (e, st')"
        by (subst (asm) upload_chunks.simps) simp
      from "1.IH"[OF True Inr[unfolded y] refl r] obtain n where
        n: "st' = st1\<lparr>calls := calls st1 @ map (\<lambda>k. chunk_request url buf (off + chunkSize + k * chunkSize)) [0..<n]\<rparr>"
        by blast
      from send_Inr[OF Inr[unfolded y]] have "st1 = st\<lparr>calls := calls st @ [chunk_request url buf off]\<rparr>" by simp
      with n have "st' = st\<lparr>calls := calls st @ chunk_request url buf off #
          map (\<lambda>k. chunk_request url buf (off + chunkSize + k * chunkSize)) [0..<n]\<rparr>"
        by simp
      moreover have "map (\<lambda>k. chunk_request url buf (off + k * chunkSize)) [0..<Suc n] =
          chunk_request url buf off #
          map (\<lambda>k. chunk_request url buf (off + chunkSize + k * chunkSize)) [0..<n]"
        unfolding upt_Suc_shift by (simp add: ac_simps)
      ultimately have "st' = st\<lparr>calls := calls st @ map (\<lambda>k. chunk_request url buf (off + k * chunkSize)) [0..<Suc n]\<rparr>"
        by (simp del: upt_Suc)
      then show ?thesis by blast
    qed
  qed
qed

subsection \<open>\<open>messageAttachment.add\<close>\<close>

lemma error_record:
  "constructExecutionMetaData (returnJsonArray (error_json e)) i =
     [\<lparr>item_json = error_json e, item_binary = None, item_pairedItem = Some i\<rparr>]"
  by (simp add: constructExecutionMetaData_def returnJsonArray_def error_json_def json_item_def)

lemma success_record:
  "constructExecutionMetaData (returnJsonArray success_json) i =
     [\<lparr>item_json = success_json, item_binary = None, item_pairedItem = Some i\<rparr>]"
  by (simp add: constructExecutionMetaData_def returnJsonArray_def success_json_def json_item_def)

lemma accumulate_loop_failure:
  "body i st = Inl (e, st') \<Longrightarrow>
   accumulate_loop env body (i # is) st =
     (if continueOnFail env
      then accumulate_loop env body is
             (push st' [\<lparr>item_json = error_json e, item_binary = None, item_pairedItem = Some i\<rparr>])
      else Inl (e, st'))"
  by (simp add: error_record)

text \<open>The body of \<open>messageAttachment.add\<close> once the three validations have passed.\<close>

lemma add_validated:
  assumes "item_binary (items st ! i) = Some bin"
      and "bin (binaryPropertyName env 0) = Some bd"
      and "resolve_fileName (additionalFields env i) bd = Some fn"
      and "fn \<noteq> []"
  shows "messageAttachment_add_item env i st =
     (if length (bin_data bd) > 3000000
      then (case send env (session_request (messageId env i) fn (length (bin_data bd))) st of
              Inl x \<Rightarrow> Inl x
            | Inr (responseData, st1) \<Rightarrow>
               (case get_prop (resp_body responseData) ''uploadUrl'' of
                  Inl e \<Rightarrow> Inl (e, st1)
                | Inr uploadUrl \<Rightarrow>
                   if uploadUrl = JUndefined
                   then Inl (NodeApiError (resp_body responseData) ''Failed to get upload session'', st1)
                   else (case upload_chunks env uploadUrl (bin_data bd) 0 st1 of
                           Inl x \<Rightarrow> Inl x
                         | Inr st2 \<Rightarrow>
                             Inr (Next (push st2 (constructExecutionMetaData
                                    (returnJsonArray success_json) i))))))
      else (case send env (small_request env (messageId env i) fn (bin_data bd)) st of
              Inl x \<Rightarrow> Inl x
            | Inr (responseData, st1) \<Rightarrow>
                Inr (Next (push st1 (constructExecutionMetaData
                       (returnJsonArray success_json) i)))))"
  using assms by (simp add: messageAttachment_add_item_def Let_def)

text \<open>
  C8. In \<open>messageAttachment.add\<close>, an item without binary data, without the named binary
  property, or without a file name in both the additional fields and the binary metadata
  raises a validation error with the state untouched (so no request was issued for the item
  and none is repeated); with continue-on-fail the loop pushes the error record tagged with
  the item index and goes on with the next index, otherwise it throws that error.
\<close>

theorem add_validation_error:
  assumes "item_binary (items st ! i) = None
           \<or> (\<exists>bin. item_binary (items st ! i) = Some bin \<and> bin (binaryPropertyName env 0) = None)
           \<or> (\<exists>bin bd. item_binary (items st ! i) = Some bin
                 \<and> bin (binaryPropertyName env 0) = Some bd
                 \<and> \<not> truthy (af_fileName (additionalFields env i))
                 \<and> \<not> truthy (bin_fileName bd))"
  shows "\<exists>e \<in> {no_binary_error, no_property_error (binaryPropertyName env 0), no_fileName_error}.
           messageAttachment_add_item env i st = Inl (e, st)
           \<and> accumulate_loop env (messageAttachment_add_item env) (i # is) st =
               (if continueOnFail env
                then accumulate_loop env (messageAttachment_add_item env) is
                       (push st [\<lparr>item_json = error_json e, item_binary = None,
                                  item_pairedItem = Some i\<rparr>])
                else Inl (e, st))"
proof -
  have "\<exists>e \<in> {no_binary_error, no_property_error (binaryPropertyName env 0), no_fileName_error}.
           messageAttachment_add_item env i st = Inl (e, st)"
    using assms
    by (auto simp: messageAttachment_add_item_def resolve_fileName_def Let_def split: option.splits)
  then obtain e where e: "e \<in> {no_binary_error, no_property_error (binaryPropertyName env 0), no_fileName_error}"
      and r: "messageAttachment_add_item env i st = Inl (e, st)" by blast
  from accumulate_loop_failure[where body = "messageAttachment_add_item env", OF r] e r
  show ?thesis by blast
qed

theorem add_validation_error_witness:
  "item_binary (items (initial_state [plain_item, zero_item 5]) ! 0) = None
   \<and> messageAttachment_add_item example_env 0 (initial_state [plain_item, zero_item 5])
       = Inl (no_binary_error, initial_state [plain_item, zero_item 5])
   \<and> map item_json (returnData (the (outcome_state
        (accumulate_loop example_env (messageAttachment_add_item example_env) [0, 1]
           (initial_state [plain_item, zero_item 5])))))
       = [error_json no_binary_error, success_json]"
proof -
  let ?st = "initial_state [plain_item, zero_item 5]"
  have h: "item_binary (items ?st ! 0) = None"
    by (simp add: initial_state_def plain_item_def)
  have b: "messageAttachment_add_item example_env 0 ?st = Inl (no_binary_error, ?st)"
    by (simp add: messageAttachment_add_item_def initial_state_def plain_item_def example_env_def)
  have ne: "no_binary_error \<noteq> no_property_error ''data''" "no_binary_error \<noteq> no_fileName_error"
    by (simp_all add: no_binary_error_def no_property_error_def no_fileName_error_def)
  from add_validation_error[of ?st 0 example_env "[1]", OF disjI1, OF h]
  obtain e where r: "messageAttachment_add_item example_env 0 ?st = Inl (e, ?st)"
    and l: "accumulate_loop example_env (messageAttachment_add_item example_env) [0, 1] ?st =
               (if continueOnFail example_env
                then accumulate_loop example_env (messageAttachment_add_item example_env) [1]
                       (push ?st [\<lparr>item_json = error_json e, item_binary = None,
                                  item_pairedItem = Some 0\<rparr>])
                else Inl (e, ?st))"
    by blast
  from r b have e: "e = no_binary_error" by simp
  have "map item_json (returnData (the (outcome_state
        (accumulate_loop example_env (messageAttachment_add_item example_env) [0, 1] ?st))))
       = [error_json no_binary_error, success_json]"
    unfolding l e
    by (simp add: example_env_def messageAttachment_add_item_def initial_state_def zero_item_def
        zero_data_def push_def resolve_fileName_def empty_fields_def send_def outcome_state_def
        success_record Let_def)
  with h b show ?thesis by blast
qed

text \<open>
  C5. In the large-file path of \<open>messageAttachment.add\<close>, when the answer to the
  upload-session request has no \<open>uploadUrl\<close>, the item fails with the error
  \<open>Failed to get upload session\<close> and the request log has grown by the session request
  alone: no chunk PUT and no second session request. With continue-on-fail the loop pushes
  the error record tagged with the item index and goes on with the next index; otherwise
  it throws.
\<close>

theorem add_missing_uploadUrl:
  assumes "item_binary (items st ! i) = Some bin"
      and "bin (binaryPropertyName env 0) = Some bd"
      and "resolve_fileName (additionalFields env i) bd = Some fn"
      and "fn \<noteq> []"
      and "length (bin_data bd) > 3000000"
      and "server env (calls st) (session_request (messageId env i) fn (length (bin_data bd))) = Inr resp"
      and "get_prop (resp_body resp) ''uploadUrl'' = Inr JUndefined"
  shows "messageAttachment_add_item env i st =
           Inl (NodeApiError (resp_body resp) ''Failed to get upload session'',
                st\<lparr>calls := calls st @ [session_request (messageId env i) fn (length (bin_data bd))]\<rparr>)
         \<and> accumulate_loop env (messageAttachment_add_item env) (i # is) st =
             (if continueOnFail env
              then accumulate_loop env (messageAttachment_add_item env) is
                     (push (st\<lparr>calls := calls st @ [session_request (messageId env i) fn (length (bin_data bd))]\<rparr>)
                        [\<lparr>item_json = JObj [(''error'', JStr ''Failed to get upload session'')],
                          item_binary = None, item_pairedItem = Some i\<rparr>])
              else Inl (NodeApiError (resp_body resp) ''Failed to get upload session'',
                        st\<lparr>calls := calls st @ [session_request (messageId env i) fn (length (bin_data bd))]\<rparr>))"
proof -
  let ?r = "session_request (messageId env i) fn (length (bin_data bd))"
  have s: "send env ?r st = Inr (resp, st\<lparr>calls := calls st @ [?r]\<rparr>)"
    using assms(6) by (simp add: send_def)
  have b: "messageAttachment_add_item env i st =
           Inl (NodeApiError (resp_body resp) ''Failed to get upload session'', st\<lparr>calls := calls st @ [?r]\<rparr>)"
    unfolding add_validated[OF assms(1-4)] using assms(5) s assms(7) by simp
  from accumulate_loop_failure[where body = "messageAttachment_add_item env", OF b] b
  show ?thesis by (simp add: error_json_def)
qed

theorem add_missing_uploadUrl_witness:
  "messageAttachment_add_item no_url_env 0 (initial_state [zero_item 3000001, plain_item]) =
     Inl (NodeApiError (JObj []) ''Failed to get upload session'',
          (initial_state [zero_item 3000001, plain_item])
            \<lparr>calls := [session_request ''m'' ''a.bin'' 3000001]\<rparr>)
   \<and> map item_json (returnData (the (outcome_state
        (accumulate_loop no_url_env (messageAttachment_add_item no_url_env) [0, 1]
           (initial_state [zero_item 3000001, plain_item])))))
       = [JObj [(''error'', JStr ''Failed to get upload session'')], error_json no_binary_error]"
proof -
  let ?st = "initial_state [zero_item 3000001, plain_item]"
  let ?resp = "\<lparr>resp_headers = Map.empty, resp_body = JObj []\<rparr>"
  have h1: "item_binary (items ?st ! 0) = Some [''data'' \<mapsto> zero_data 3000001]"
    by (simp add: initial_state_def zero_item_def)
  have h2: "[''data'' \<mapsto> zero_data 3000001] (binaryPropertyName no_url_env 0) = Some (zero_data 3000001)"
    by (simp add: no_url_env_def example_env_def)
  have h3: "resolve_fileName (additionalFields no_url_env 0) (zero_data 3000001) = Some ''a.bin''"
    by (simp add: no_url_env_def example_env_def resolve_fileName_def empty_fields_def zero_data_def)
  have h4: "''a.bin'' \<noteq> []" by simp
  have h5: "length (bin_data (zero_data 3000001)) > 3000000" by (simp add: zero_data_def)
  have h6: "server no_url_env (calls ?st)
              (session_request (messageId no_url_env 0) ''a.bin'' (length (bin_data (zero_data 3000001))))
            = Inr ?resp"
    by (simp add: no_url_env_def example_env_def)
  have h7: "get_prop (resp_body ?resp) ''uploadUrl'' = Inr JUndefined" by simp
  note t = add_missing_uploadUrl[OF h1 h2 h3 h4 h5 h6 h7, of "[1]"]
  have c: "calls ?st = []" by (simp add: initial_state_def)
  have m: "messageId no_url_env 0 = ''m''" "continueOnFail no_url_env"
    by (simp_all add: no_url_env_def example_env_def)
  have l: "length (bin_data (zero_data 3000001)) = 3000001" by (simp add: zero_data_def)
  have p: "accumulate_loop no_url_env (messageAttachment_add_item no_url_env) [1]
             (push (?st\<lparr>calls := [session_request ''m'' ''a.bin'' 3000001]\<rparr>)
                [\<lparr>item_json = JObj [(''error'', JStr ''Failed to get upload session'')],
                  item_binary = None, item_pairedItem = Some 0\<rparr>])
           = Inr (Next (push (push (?st\<lparr>calls := [session_request ''m'' ''a.bin'' 3000001]\<rparr>)
                [\<lparr>item_json = JObj [(''error'', JStr ''Failed to get upload session'')],
                  item_binary = None, item_pairedItem = Some 0\<rparr>])
                [\<lparr>item_json = error_json no_binary_error, item_binary = None, item_pairedItem = Some 1\<rparr>]))"
    by (simp add: messageAttachment_add_item_def initial_state_def plain_item_def push_def
        no_url_env_def example_env_def error_record)
  have A: "messageAttachment_add_item no_url_env 0 ?st =
       Inl (NodeApiError (JObj []) ''Failed to get upload session'',
            ?st\<lparr>calls := [session_request ''m'' ''a.bin'' 3000001]\<rparr>)"
    using t c m l by (simp del: accumulate_loop.simps)
  have B: "accumulate_loop no_url_env (messageAttachment_add_item no_url_env) [0, 1] ?st =
       accumulate_loop no_url_env (messageAttachment_add_item no_url_env) [1]
             (push (?st\<lparr>calls := [session_request ''m'' ''a.bin'' 3000001]\<rparr>)
                [\<lparr>item_json = JObj [(''error'', JStr ''Failed to get upload session'')],
                  item_binary = None, item_pairedItem = Some 0\<rparr>])"
    using t c m l by (simp del: accumulate_loop.simps)
  have "map item_json (returnData (the (outcome_state
        (accumulate_loop no_url_env (messageAttachment_add_item no_url_env) [0, 1] ?st))))
       = [JObj [(''error'', JStr ''Failed to get upload session'')], error_json no_binary_error]"
    unfolding B p by (simp add: outcome_state_def push_def initial_state_def)
  with A show ?thesis by blast
qed

lemma chunk_request_method [simp]: "req_method (chunk_request url buf off) = ''PUT''"
  by (simp add: chunk_request_def Let_def)

lemma outcome_calls_simps [simp]:
  "outcome_calls (Inl (e, st)) = calls st"
  "outcome_calls (Inr (Next st)) = calls st"
  by (simp_all add: outcome_calls_def outcome_state_def)

lemma calls_push [simp]: "calls (push st xs) = calls st"
  by (simp add: push_def)

lemma add_large_calls:
  assumes "item_binary (items st ! i) = Some bin"
      and "bin (binaryPropertyName env 0) = Some bd"
      and "resolve_fileName (additionalFields env i) bd = Some fn"
      and "fn \<noteq> []"
      and "length (bin_data bd) > 3000000"
  shows "\<exists>n url. outcome_calls (messageAttachment_add_item env i st) =
           calls st @ session_request (messageId env i) fn (length (bin_data bd)) #
             map (\<lambda>k. chunk_request url (bin_data bd) (0 + k * chunkSize)) [0..<n]"
proof -
  let ?r = "session_request (messageId env i) fn (length (bin_data bd))"
  let ?P = "\<lambda>cs. \<exists>n url. cs = calls st @ ?r #
             map (\<lambda>k. chunk_request url (bin_data bd) (0 + k * chunkSize)) [0..<n]"
  have none: "?P (calls st @ [?r])"
    by (rule exI[of _ 0]) simp
  note body = add_validated[OF assms(1-4)]
  show ?thesis
  proof (cases "send env ?r st")
    case (Inl x)
    obtain e st1 where x: "x = (e, st1)" by (cases x)
    from send_Inl[OF Inl[unfolded x]] have "calls st1 = calls st @ [?r]" by simp
    with none show ?thesis unfolding body using assms(5) Inl x by simp
  next
    case (Inr y)
    obtain resp st1 where y: "y = (resp, st1)" by (cases y)
    from send_Inr[OF Inr[unfolded y]] have c1: "calls st1 = calls st @ [?r]" by simp
    show ?thesis
    proof (cases "get_prop (resp_body resp) ''uploadUrl''")
      case (Inl e)
      with none c1 show ?thesis unfolding body using assms(5) Inr y by simp
    next
      case url: (Inr url)
      show ?thesis
      proof (cases "url = JUndefined")
        case True
        with none c1 show ?thesis unfolding body using assms(5) Inr y url by simp
      next
        case False
        show ?thesis
        proof (cases "upload_chunks env url (bin_data bd) 0 st1")
          case (Inl z)
          obtain e st2 where z: "z = (e, st2)" by (cases z)
          from upload_chunks_Inl[OF Inl[unfolded z]] obtain n where
            "calls st2 = calls st1 @ map (\<lambda>k. chunk_request url (bin_data bd) (0 + k * chunkSize)) [0..<n]"
            by auto
          with c1 have "?P (calls st2)" by auto
          then show ?thesis unfolding body using assms(5) Inr y url False Inl z by simp
        next
          case st2: (Inr st2)
          from upload_chunks_Inr[OF st2]
          have "calls st2 = calls st1 @ map (\<lambda>k. chunk_request url (bin_data bd) (0 + k * chunkSize))
                  [0..<(length (bin_data bd) - 0 + chunkSize - 1) div chunkSize]"
            by simp
          with c1 have "?P (calls st2)" by auto
          then show ?thesis unfolding body using assms(5) Inr y url False st2 by simp
        qed
      qed
    qed
  qed
qed

text \<open>
  C3. For an item of \<open>messageAttachment.add\<close> that passes validation, the transfer path is
  chosen by \<open>length > 3000000\<close>: above the threshold the first request is the upload-session
  POST and every later request of the item is a chunk PUT; at or below it the item issues
  the single POST that carries the base64 content. So 3,000,000 bytes go the small way and
  3,000,001 the chunked way.
\<close>

theorem add_path_selection:
  assumes "item_binary (items st ! i) = Some bin"
      and "bin (binaryPropertyName env 0) = Some bd"
      and "resolve_fileName (additionalFields env i) bd = Some fn"
      and "fn \<noteq> []"
  shows "if length (bin_data bd) > 3000000
         then (\<exists>puts. outcome_calls (messageAttachment_add_item env i st) =
                  calls st @ session_request (messageId env i) fn (length (bin_data bd)) # puts
                \<and> list_all (\<lambda>p. req_method p = ''PUT'') puts)
         else outcome_calls (messageAttachment_add_item env i st) =
                calls st @ [small_request env (messageId env i) fn (bin_data bd)]"
proof (cases "length (bin_data bd) > 3000000")
  case True
  from add_large_calls[OF assms True] obtain n url where
    "outcome_calls (messageAttachment_add_item env i st) =
           calls st @ session_request (messageId env i) fn (length (bin_data bd)) #
             map (\<lambda>k. chunk_request url (bin_data bd) (0 + k * chunkSize)) [0..<n]"
    by blast
  moreover have "list_all (\<lambda>p. req_method p = ''PUT'')
      (map (\<lambda>k. chunk_request url (bin_data bd) (0 + k * chunkSize)) [0..<n])"
    by (simp add: list_all_iff)
  ultimately show ?thesis using True by auto
next
  case False
  let ?r = "small_request env (messageId env i) fn (bin_data bd)"
  have "outcome_calls (messageAttachment_add_item env i st) = calls st @ [?r]"
  proof (cases "send env ?r st")
    case (Inl x)
    obtain e st1 where x: "x = (e, st1)" by (cases x)
    from send_Inl[OF Inl[unfolded x]] have "calls st1 = calls st @ [?r]" by simp
    then show ?thesis unfolding add_validated[OF assms] using False Inl x by simp
  next
    case (Inr y)
    obtain resp st1 where y: "y = (resp, st1)" by (cases y)
    from send_Inr[OF Inr[unfolded y]] have "calls st1 = calls st @ [?r]" by simp
    then show ?thesis unfolding add_validated[OF assms] using False Inr y by simp
  qed
  with False show ?thesis by simp
qed

theorem add_path_selection_witness:
  "map req_target (outcome_calls (messageAttachment_add_item example_env 0 (initial_state [zero_item 3000000])))
     = [JStr ''/messages/m/attachments'']
   \<and> hd (outcome_calls (messageAttachment_add_item example_env 0 (initial_state [zero_item 3000001])))
     = session_request ''m'' ''a.bin'' 3000001"
proof -
  have f: "''a.bin'' \<noteq> []" by simp
  have m: "messageId example_env 0 = ''m''" by (simp add: example_env_def)
  { fix n
    let ?st = "initial_state [zero_item n]"
    have h1: "item_binary (items ?st ! 0) = Some [''data'' \<mapsto> zero_data n]"
      by (simp add: initial_state_def zero_item_def)
    have h2: "[''data'' \<mapsto> zero_data n] (binaryPropertyName example_env 0) = Some (zero_data n)"
      by (simp add: example_env_def)
    have h3: "resolve_fileName (additionalFields example_env 0) (zero_data n) = Some ''a.bin''"
      by (simp add: example_env_def resolve_fileName_def empty_fields_def zero_data_def)
    note add_path_selection[OF h1 h2 h3 f] }
  note t = this
  have c: "\<And>n. calls (initial_state [zero_item n]) = []" by (simp add: initial_state_def)
  have l: "\<And>n. length (bin_data (zero_data n)) = n" by (simp add: zero_data_def)
  from t[of 3000000]
  have "outcome_calls (messageAttachment_add_item example_env 0 (initial_state [zero_item 3000000]))
          = [small_request example_env ''m'' ''a.bin'' (bin_data (zero_data 3000000))]"
    unfolding c l m by simp
  then have A: "map req_target (outcome_calls (messageAttachment_add_item example_env 0
          (initial_state [zero_item 3000000]))) = [JStr ''/messages/m/attachments'']"
    by (simp add: small_request_def)
  from t[of 3000001]
  obtain puts where "outcome_calls (messageAttachment_add_item example_env 0 (initial_state [zero_item 3000001]))
          = session_request ''m'' ''a.bin'' 3000001 # puts"
    unfolding c l m by auto
  then have B: "hd (outcome_calls (messageAttachment_add_item example_env 0 (initial_state [zero_item 3000001])))
     = session_request ''m'' ''a.bin'' 3000001" by simp
  from A B show ?thesis by blast
qed

lemma body_bytes_chunk: "body_bytes (chunk_request url buf off) = take chunkSize (drop off buf)"
  by (simp add: body_bytes_def chunk_request_def Let_def subarray_def min_def)

lemma header_chunk:
  "header (chunk_request url buf off) ''Content-Range'' =
     Some (JStr (contentRange off (min (off + chunkSize) (length buf)) (length buf)))"
  by (simp add: header_def chunk_request_def Let_def)

lemma concat_chunks: "concat (map (\<lambda>k. take c (drop (k * c) buf)) [0..<n]) = take (n * c) buf"
proof (induction n)
  case 0
  show ?case by simp
next
  case (Suc n)
  have "take (n * c + c) buf = take (n * c) buf @ take c (drop (n * c) buf)"
    by (rule take_add)
  with Suc show ?case by (simp add: add.commute)
qed

lemma ceil_covers:
  fixes c len :: nat
  assumes "0 < c"
  shows "len \<le> ((len + c - 1) div c) * c"
proof -
  have "(len + c - 1) div c * c + (len + c - 1) mod c = len + c - 1"
    by (rule div_mult_mod_eq)
  moreover have "(len + c - 1) mod c < c" using assms by simp
  ultimately show ?thesis by linarith
qed

lemma add_large_success:
  assumes "item_binary (items st ! i) = Some bin"
      and "bin (binaryPropertyName env 0) = Some bd"
      and "length (bin_data bd) > 3000000"
      and "messageAttachment_add_item env i st = Inr (Next st')"
  shows "\<exists>fn url. calls st' =
           calls st @ session_request (messageId env i) fn (length (bin_data bd)) #
             map (\<lambda>k. chunk_request url (bin_data bd) (k * chunkSize))
               [0..<(length (bin_data bd) + chunkSize - 1) div chunkSize]"
proof -
  from assms(1,2,4) have tr: "truthy (resolve_fileName (additionalFields env i) bd)"
    by (auto simp: messageAttachment_add_item_def Let_def split: if_splits)
  then obtain fn where fn: "resolve_fileName (additionalFields env i) bd = Some fn" "fn \<noteq> []"
    by (cases "resolve_fileName (additionalFields env i) bd") auto
  let ?r = "session_request (messageId env i) fn (length (bin_data bd))"
  from assms(4)[unfolded add_validated[OF assms(1,2) fn]] assms(3)
  obtain resp st1 url st2 where
    s: "send env ?r st = Inr (resp, st1)" and
    u: "upload_chunks env url (bin_data bd) 0 st1 = Inr st2" and
    e: "st' = push st2 (constructExecutionMetaData (returnJsonArray success_json) i)"
    by (auto split: sum.splits if_splits)
  from send_Inr[OF s] have "calls st1 = calls st @ [?r]" by simp
  moreover from upload_chunks_Inr[OF u]
  have "calls st2 = calls st1 @ map (\<lambda>k. chunk_request url (bin_data bd) (k * chunkSize))
                  [0..<(length (bin_data bd) + chunkSize - 1) div chunkSize]"
    by simp
  ultimately have "calls st' = calls st @ ?r #
             map (\<lambda>k. chunk_request url (bin_data bd) (k * chunkSize))
               [0..<(length (bin_data bd) + chunkSize - 1) div chunkSize]"
    using e by simp
  then show ?thesis by blast
qed

text \<open>
  C2. When \<open>messageAttachment.add\<close> uploads a buffer of length \<open>L > 3000000\<close> (the item
  succeeds), the requests after the session request are exactly \<open>ceil(L / 4000000)\<close> PUTs;
  the k-th carries \<open>Content-Range: bytes {4000000 k}-{min(4000000 (k+1), L) - 1}/{L}\<close>, so
  the offsets increase strictly, the last range ends at \<open>L - 1\<close> and every range declares the
  total \<open>L\<close>; and the chunk bodies, concatenated in call order, are the buffer.
\<close>

theorem add_chunked_upload:
  assumes "item_binary (items st ! i) = Some bin"
      and "bin (binaryPropertyName env 0) = Some bd"
      and "length (bin_data bd) > 3000000"
      and "messageAttachment_add_item env i st = Inr (Next st')"
  shows "length (later_requests st st') = (length (bin_data bd) + 3999999) div 4000000
         \<and> (\<forall>k < length (later_requests st st').
               req_method (later_requests st st' ! k) = ''PUT''
               \<and> header (later_requests st st' ! k) ''Content-Range'' =
                   Some (JStr (''bytes '' @ show_nat (4000000 * k) @ ''-''
                     @ show_nat (min (4000000 * (k + 1)) (length (bin_data bd)) - 1) @ ''/''
                     @ show_nat (length (bin_data bd)))))
         \<and> concat (map body_bytes (later_requests st st')) = bin_data bd
         \<and> take (length (calls st)) (calls st') = calls st
         \<and> req_method (calls st' ! length (calls st)) = ''POST''"
proof -
  let ?L = "length (bin_data bd)"
  let ?n = "(?L + chunkSize - 1) div chunkSize"
  from add_large_success[OF assms] obtain fn url where
    c: "calls st' = calls st @ session_request (messageId env i) fn ?L #
             map (\<lambda>k. chunk_request url (bin_data bd) (k * chunkSize)) [0..<?n]"
    by blast
  then have p: "later_requests st st' =
      map (\<lambda>k. chunk_request url (bin_data bd) (k * chunkSize)) [0..<?n]"
    by (simp add: later_requests_def)
  have n: "?n = (?L + 3999999) div 4000000"
    by (simp add: chunkSize_def)
  have 1: "length (later_requests st st') = (?L + 3999999) div 4000000"
    unfolding p n by simp
  have 2: "\<forall>k < length (later_requests st st').
               req_method (later_requests st st' ! k) = ''PUT''
               \<and> header (later_requests st st' ! k) ''Content-Range'' =
                   Some (JStr (''bytes '' @ show_nat (4000000 * k) @ ''-''
                     @ show_nat (min (4000000 * (k + 1)) ?L - 1) @ ''/'' @ show_nat ?L))"
  proof (intro allI impI)
    fix k assume "k < length (later_requests st st')"
    then have k: "k < ?n" unfolding p by simp
    then have nth: "later_requests st st' ! k = chunk_request url (bin_data bd) (k * chunkSize)"
      unfolding p by simp
    have e1: "k * chunkSize = 4000000 * k"
      by (simp add: chunkSize_def)
    have e2: "4000000 * k + chunkSize = 4000000 * (k + 1)"
      by (simp add: chunkSize_def)
    have "header (later_requests st st' ! k) ''Content-Range'' =
            Some (JStr (contentRange (4000000 * k) (min (4000000 * (k + 1)) ?L) ?L))"
      unfolding nth header_chunk e1 e2 by (rule refl)
    then show "req_method (later_requests st st' ! k) = ''PUT''
               \<and> header (later_requests st st' ! k) ''Content-Range'' =
                   Some (JStr (''bytes '' @ show_nat (4000000 * k) @ ''-''
                     @ show_nat (min (4000000 * (k + 1)) ?L - 1) @ ''/'' @ show_nat ?L))"
      unfolding nth contentRange_def by simp
  qed
  have "concat (map body_bytes (later_requests st st')) = take (?n * chunkSize) (bin_data bd)"
    unfolding p by (simp add: comp_def body_bytes_chunk concat_chunks)
  moreover have "?L \<le> ?n * chunkSize"
    by (rule ceil_covers[OF chunkSize_pos])
  ultimately have 3: "concat (map body_bytes (later_requests st st')) = bin_data bd"
    by simp
  have 4: "take (length (calls st)) (calls st') = calls st"
    unfolding c by simp
  have 5: "req_method (calls st' ! length (calls st)) = ''POST''"
    unfolding c by (simp add: session_request_def)
  from 1 2 3 4 5 show ?thesis by blast
qed

lemma example_upload:
  "messageAttachment_add_item example_env 0 (initial_state [zero_item 9000000]) = Inr (Next example_uploaded)"
  by (simp add: example_uploaded_def outcome_state_def messageAttachment_add_item_def example_env_def
      zero_item_def zero_data_def initial_state_def resolve_fileName_def
      send_def session_request_def session_response_def empty_fields_def upload_chunks.simps
      chunk_request_def chunkSize_def subarray_def push_def Let_def)

theorem add_chunked_upload_witness:
  "length (later_requests (initial_state [zero_item 9000000]) example_uploaded) = 3
   \<and> header (later_requests (initial_state [zero_item 9000000]) example_uploaded ! 0) ''Content-Range''
       = Some (JStr ''bytes 0-3999999/9000000'')
   \<and> header (later_requests (initial_state [zero_item 9000000]) example_uploaded ! 1) ''Content-Range''
       = Some (JStr ''bytes 4000000-7999999/9000000'')
   \<and> header (later_requests (initial_state [zero_item 9000000]) example_uploaded ! 2) ''Content-Range''
       = Some (JStr ''bytes 8000000-8999999/9000000'')
   \<and> concat (map body_bytes (later_requests (initial_state [zero_item 9000000]) example_uploaded))
       = replicate 9000000 0"
proof -
  let ?st = "initial_state [zero_item 9000000]"
  let ?puts = "later_requests ?st example_uploaded"
  have h1: "item_binary (items ?st ! 0) = Some [''data'' \<mapsto> zero_data 9000000]"
    by (simp add: initial_state_def zero_item_def)
  have h2: "[''data'' \<mapsto> zero_data 9000000] (binaryPropertyName example_env 0) = Some (zero_data 9000000)"
    by (simp add: example_env_def)
  have h3: "length (bin_data (zero_data 9000000)) > 3000000" by (simp add: zero_data_def)
  note t = add_chunked_upload[OF h1 h2 h3 example_upload]
  have l: "length (bin_data (zero_data 9000000)) = 9000000" "bin_data (zero_data 9000000) = replicate 9000000 0"
    by (simp_all add: zero_data_def)
  from t[THEN conjunct1] have len: "length ?puts = 3" unfolding l by simp
  note r = t[THEN conjunct2, THEN conjunct1, rule_format, unfolded l len, THEN conjunct2]
  have s: "show_nat 0 = ''0''" "show_nat 3999999 = ''3999999''" "show_nat 4000000 = ''4000000''"
     "show_nat 7999999 = ''7999999''" "show_nat 8000000 = ''8000000''"
     "show_nat 8999999 = ''8999999''" "show_nat 9000000 = ''9000000''"
    by (simp_all add: show_nat.simps digit_def)
  from r[of 0] have r0: "header (?puts ! 0) ''Content-Range'' = Some (JStr ''bytes 0-3999999/9000000'')"
    by (simp add: s)
  from r[of 1] have r1: "header (?puts ! 1) ''Content-Range'' = Some (JStr ''bytes 4000000-7999999/9000000'')"
    by (simp add: s)
  from r[of 2] have r2: "header (?puts ! 2) ''Content-Range'' = Some (JStr ''bytes 8000000-8999999/9000000'')"
    by (simp add: s)
  from t[THEN conjunct2, THEN conjunct2, THEN conjunct1]
  have b: "concat (map body_bytes ?puts) = replicate 9000000 0" unfolding l .
  from len r0 r1 r2 b show ?thesis by blast
qed

lemma send_binaryPropertyName [simp]:
  "send (env\<lparr>binaryPropertyName := f\<rparr>) r st = send env r st"
  by (simp add: send_def)

lemma upload_chunks_binaryPropertyName [simp]:
  "upload_chunks (env\<lparr>binaryPropertyName := f\<rparr>) url buf off st = upload_chunks env url buf off st"
proof (induction env url buf off st rule: upload_chunks.induct)
  case (1 env url buf off st)
  show ?case
  proof (cases "off < length buf")
    case False
    then show ?thesis by (simp add: upload_chunks.simps)
  next
    case True
    show ?thesis
    proof (cases "send env (chunk_request url buf off) st")
      case (Inl x)
      with True show ?thesis
        by (simp add: upload_chunks.simps[of _ url buf off st])
    next
      case (Inr y)
      obtain resp st1 where y: "y = (resp, st1)" by (cases y)
      from "1.IH"[OF True Inr[unfolded y] refl] Inr y True show ?thesis
        by (simp add: upload_chunks.simps[of _ url buf off st])
    qed
  qed
qed

text \<open>
  C10. \<open>messageAttachment.add\<close> reads the binary property name at item index \<open>0\<close> only:
  changing the parameter's value at any other index (the item's own included) changes
  nothing in what the item does, and an item that succeeds carries a binary field under
  the name given for item \<open>0\<close>.
\<close>

theorem add_property_name_of_item_0:
  assumes "f 0 = binaryPropertyName env 0"
  shows "messageAttachment_add_item (env\<lparr>binaryPropertyName := f\<rparr>) i st =
           messageAttachment_add_item env i st
         \<and> (\<forall>r. messageAttachment_add_item env i st = Inr r \<longrightarrow>
               (\<exists>bin bd. item_binary (items st ! i) = Some bin
                  \<and> bin (binaryPropertyName env 0) = Some bd))"
proof -
  have 1: "messageAttachment_add_item (env\<lparr>binaryPropertyName := f\<rparr>) i st =
           messageAttachment_add_item env i st"
    using assms
    by (simp add: messageAttachment_add_item_def small_request_def Let_def
          split: option.splits sum.splits prod.splits)
  have 2: "\<forall>r. messageAttachment_add_item env i st = Inr r \<longrightarrow>
               (\<exists>bin bd. item_binary (items st ! i) = Some bin
                  \<and> bin (binaryPropertyName env 0) = Some bd)"
    by (auto simp: messageAttachment_add_item_def Let_def split: option.splits)
  from 1 2 show ?thesis by blast
qed

theorem add_property_name_of_item_0_witness:
  "own_names 0 = binaryPropertyName field_a_env 0
   \<and> own_names 1 = ''b''
   \<and> map req_body (outcome_calls (messageAttachment_add_item
        (field_a_env\<lparr>binaryPropertyName := own_names\<rparr>) 1
        (initial_state [two_fields_item, two_fields_item])))
      = [JsonBody (JObj [(''@odata.type'', JStr ''#microsoft.graph.fileAttachment''),
                         (''name'', JStr ''a.bin''), (''contentBytes'', JStr ''AQID'')])]"
proof -
  let ?st = "initial_state [two_fields_item, two_fields_item]"
  have h: "own_names 0 = binaryPropertyName field_a_env 0"
    by (simp add: own_names_def field_a_env_def example_env_def)
  have o: "own_names 1 = ''b''" by (simp add: own_names_def)
  have "map req_body (outcome_calls (messageAttachment_add_item field_a_env 1 ?st))
      = [JsonBody (JObj [(''@odata.type'', JStr ''#microsoft.graph.fileAttachment''),
                         (''name'', JStr ''a.bin''), (''contentBytes'', JStr ''AQID'')])]"
    by (simp add: messageAttachment_add_item_def field_a_env_def example_env_def initial_state_def
        two_fields_item_def resolve_fileName_def empty_fields_def send_def small_request_def
        Let_def)
  with add_property_name_of_item_0[where f = own_names and env = field_a_env and i = 1
         and st = ?st, OF h, THEN conjunct1] h o
  show ?thesis by simp
qed

subsection \<open>The shared query object\<close>

text \<open>
  C9. \<open>qs\<close> is one object for the whole call of \<open>execute\<close>. In \<open>message.getAll\<close> over three
  items, where only item \<open>0\<close> sets \<open>$select\<close> and \<open>$filter\<close> and only items \<open>0\<close> and \<open>1\<close> set
  \<open>$top\<close>, the requests for items \<open>1\<close> and \<open>2\<close> still carry the selection and the filter of
  item \<open>0\<close>, and the request for item \<open>2\<close> the limit of item \<open>1\<close>. With the same parameters
  for items \<open>1\<close> and \<open>2\<close> but no selection on item \<open>0\<close>, their requests carry none: the
  request of an item is not a function of that item's parameters alone.
\<close>

theorem qs_shared_across_items:
  "additionalFields leaking_getAll_env 1 = empty_fields
   \<and> additionalFields leaking_getAll_env 2 = empty_fields
   \<and> additionalFields plain_getAll_env 1 = empty_fields
   \<and> additionalFields plain_getAll_env 2 = empty_fields
   \<and> returnAll leaking_getAll_env = returnAll plain_getAll_env
   \<and> limit leaking_getAll_env = limit plain_getAll_env
   \<and> map query_of (outcome_calls
         (run_operation leaking_getAll_env Message_getAll [plain_item, plain_item, plain_item]))
       = [(Some (JStr ''subject''), Some (JStr ''isRead eq false''), Some (JNum 5)),
          (Some (JStr ''subject''), Some (JStr ''isRead eq false''), Some (JNum 7)),
          (Some (JStr ''subject''), Some (JStr ''isRead eq false''), Some (JNum 7))]
   \<and> map query_of (outcome_calls
         (run_operation plain_getAll_env Message_getAll [plain_item, plain_item, plain_item]))
       = [(None, None, Some (JNum 5)), (None, None, Some (JNum 7)), (None, None, Some (JNum 7))]"
proof -
  have idx: "[0..<length [plain_item, plain_item, plain_item]] = [0, 1, 2]"
    by (simp add: upt_rec)
  have a: "map query_of (outcome_calls
         (run_operation leaking_getAll_env Message_getAll [plain_item, plain_item, plain_item]))
       = [(Some (JStr ''subject''), Some (JStr ''isRead eq false''), Some (JNum 5)),
          (Some (JStr ''subject''), Some (JStr ''isRead eq false''), Some (JNum 7)),
          (Some (JStr ''subject''), Some (JStr ''isRead eq false''), Some (JNum 7))]"
    unfolding run_operation_def idx
    by (simp add: in_place_def item_body_def message_getAll_item_def set_select_filter_def
        leaking_getAll_env_def plain_getAll_env_def example_env_def selecting_fields_def
        empty_fields_def initial_state_def microsoftApiRequest_def microsoftApiRequestAllItems_def
        send_def push_def getAll_additionalFields_def query_of_def Let_def)
  have b: "map query_of (outcome_calls
         (run_operation plain_getAll_env Message_getAll [plain_item, plain_item, plain_item]))
       = [(None, None, Some (JNum 5)), (None, None, Some (JNum 7)), (None, None, Some (JNum 7))]"
    unfolding run_operation_def idx
    by (simp add: in_place_def item_body_def message_getAll_item_def set_select_filter_def
        plain_getAll_env_def example_env_def
        empty_fields_def initial_state_def microsoftApiRequest_def microsoftApiRequestAllItems_def
        send_def push_def getAll_additionalFields_def query_of_def Let_def)
  have c: "additionalFields leaking_getAll_env 1 = empty_fields"
     "additionalFields leaking_getAll_env 2 = empty_fields"
     "additionalFields plain_getAll_env 1 = empty_fields"
     "additionalFields plain_getAll_env 2 = empty_fields"
     "returnAll leaking_getAll_env = returnAll plain_getAll_env"
     "limit leaking_getAll_env = limit plain_getAll_env"
    by (simp_all add: leaking_getAll_env_def plain_getAll_env_def example_env_def)
  from a b c show ?thesis by blast
qed

subsection \<open>\<open>message.getMime\<close>\<close>

lemma microsoftApiRequest_Inr:
  "microsoftApiRequest env m ep b q opts st = Inr (resp, st') \<Longrightarrow>
     \<exists>r. st' = st\<lparr>calls := calls st @ [r]\<rparr> \<and> server env (calls st) r = Inr resp"
  unfolding microsoftApiRequest_def by (blast dest: send_Inr)

lemma microsoftApiRequest_Inl:
  "microsoftApiRequest env m ep b q opts st = Inl (e, st') \<Longrightarrow>
     \<exists>r. st' = st\<lparr>calls := calls st @ [r]\<rparr> \<and> server env (calls st) r = Inl e"
  unfolding microsoftApiRequest_def by (blast dest: send_Inl)

lemma binary_field_store:
  "binary_field (store_binary (copy_item it) name bd) k = (if k = name then Some bd else binary_field it k)"
  by (simp add: binary_field_def store_binary_def copy_item_def split: option.splits)

text \<open>
  C6, as the code has it. When \<open>message.getMime\<close> succeeds on an item, the item's new binary
  map holds under the requested property name an entry with file name \<open>{messageId}.eml\<close>
  whose content type is the response's \<open>content-type\<close> header when that header is present
  and non-empty (and the detected type otherwise); every binary field of the input item
  under any other name is unchanged, and so is the item's JSON.
\<close>

theorem getMime_binary_entry:
  assumes "i < length (items st)"
      and "message_getMime_item env i st = Inr (Next st')"
  shows "\<exists>response bd.
           server env (calls st) (last (calls st')) = Inr response
         \<and> binary_field (items st' ! i) (binaryPropertyName env i) = Some bd
         \<and> bin_fileName bd = Some (messageId env i @ ''.eml'')
         \<and> bin_mimeType bd =
             (if truthy (resp_headers response ''content-type'')
              then the (resp_headers response ''content-type'')
              else detectMimeType env (bin_data bd) (messageId env i @ ''.eml''))
         \<and> (\<forall>k. k \<noteq> binaryPropertyName env i \<longrightarrow>
               binary_field (items st' ! i) k = binary_field (items st ! i) k)
         \<and> item_json (items st' ! i) = item_json (items st ! i)"
proof -
  let ?name = "binaryPropertyName env i"
  let ?file = "messageId env i @ ''.eml''"
  from assms(2) obtain response st1 where
    req: "microsoftApiRequest env ''GET'' (''/messages/'' @ messageId env i @ ''/$value'') NoBody
            Map.empty full_response st = Inr (response, st1)"
    and st': "st' = st1\<lparr>items := (items st1)[i :=
                   store_binary (copy_item (items st1 ! i)) ?name
                     (prepareBinaryData env (bufferFrom env (resp_body response)) (Some ?file)
                        (if truthy (resp_headers response ''content-type'')
                         then resp_headers response ''content-type'' else None))]\<rparr>"
    by (auto simp: message_getMime_item_def Let_def split: sum.splits)
  from microsoftApiRequest_Inr[OF req] obtain r where
    st1: "st1 = st\<lparr>calls := calls st @ [r]\<rparr>" and srv: "server env (calls st) r = Inr response"
    by blast
  let ?bd = "prepareBinaryData env (bufferFrom env (resp_body response)) (Some ?file)
                        (if truthy (resp_headers response ''content-type'')
                         then resp_headers response ''content-type'' else None)"
  have it: "items st' ! i = store_binary (copy_item (items st ! i)) ?name ?bd"
    using assms(1) unfolding st' st1 by simp
  have 1: "server env (calls st) (last (calls st')) = Inr response"
    unfolding st' st1 using srv by simp
  have 2: "binary_field (items st' ! i) ?name = Some ?bd"
    unfolding it by (simp add: binary_field_store)
  have 3: "bin_fileName ?bd = Some ?file"
    by (simp add: prepareBinaryData_def)
  have 4: "bin_mimeType ?bd =
             (if truthy (resp_headers response ''content-type'')
              then the (resp_headers response ''content-type'')
              else detectMimeType env (bin_data ?bd) ?file)"
    by (cases "resp_headers response ''content-type''") (simp_all add: prepareBinaryData_def)
  have 5: "\<forall>k. k \<noteq> ?name \<longrightarrow> binary_field (items st' ! i) k = binary_field (items st ! i) k"
    unfolding it by (simp add: binary_field_store)
  have 6: "item_json (items st' ! i) = item_json (items st ! i)"
    unfolding it by (simp add: store_binary_def copy_item_def)
  from 1 2 3 4 5 6 show ?thesis by blast
qed

theorem getMime_binary_entry_witness:
  "binary_field (items (the (outcome_state (message_getMime_item mime_env 0 (initial_state [invoice_item]))) ) ! 0)
     ''invoice'' = Some invoice_data
   \<and> map_option bin_fileName
       (binary_field (items (the (outcome_state (message_getMime_item mime_env 0 (initial_state [invoice_item])))) ! 0)
          ''data'') = Some (Some ''m.eml'')
   \<and> map_option bin_mimeType
       (binary_field (items (the (outcome_state (message_getMime_item mime_env 0 (initial_state [invoice_item])))) ! 0)
          ''data'') = Some ''message/rfc822''"
proof -
  let ?st = "initial_state [invoice_item]"
  let ?st' = "the (outcome_state (message_getMime_item mime_env 0 ?st))"
  have h1: "0 < length (items ?st)" by (simp add: initial_state_def)
  have h2: "message_getMime_item mime_env 0 ?st = Inr (Next ?st')"
    by (simp add: message_getMime_item_def microsoftApiRequest_def send_def mime_env_def
        example_env_def outcome_state_def Let_def)
  from getMime_binary_entry[OF h1 h2] obtain response bd where
    s: "server mime_env (calls ?st) (last (calls ?st')) = Inr response"
    and b: "binary_field (items ?st' ! 0) (binaryPropertyName mime_env 0) = Some bd"
    and f: "bin_fileName bd = Some (messageId mime_env 0 @ ''.eml'')"
    and m: "bin_mimeType bd =
             (if truthy (resp_headers response ''content-type'')
              then the (resp_headers response ''content-type'')
              else detectMimeType mime_env (bin_data bd) (messageId mime_env 0 @ ''.eml''))"
    and k: "\<forall>k. k \<noteq> binaryPropertyName mime_env 0 \<longrightarrow>
               binary_field (items ?st' ! 0) k = binary_field (items ?st ! 0) k"
    by blast
  have n: "binaryPropertyName mime_env 0 = ''data''" "messageId mime_env 0 = ''m''"
    by (simp_all add: mime_env_def example_env_def)
  from s have r: "response = mime_response ''message/rfc822''"
    by (simp add: mime_env_def example_env_def)
  from k have "binary_field (items ?st' ! 0) ''invoice'' = binary_field (items ?st ! 0) ''invoice''"
    unfolding n by simp
  then have A: "binary_field (items ?st' ! 0) ''invoice'' = Some invoice_data"
    by (simp add: initial_state_def invoice_item_def binary_field_def)
  from b f have B: "map_option bin_fileName (binary_field (items ?st' ! 0) ''data'') = Some (Some ''m.eml'')"
    unfolding n by simp
  from b m have C: "map_option bin_mimeType (binary_field (items ?st' ! 0) ''data'') = Some ''message/rfc822''"
    unfolding n r by (simp add: mime_response_def)
  from A B C show ?thesis by blast
qed

text \<open>
  C6 as stated fails in two places: a binary field already present under the requested
  property name is replaced, and a \<open>content-type\<close> header that is present but empty is not
  used. Here the input item has the field \<open>invoice\<close>, the requested name is \<open>invoice\<close>, and
  the response carries an empty \<open>content-type\<close> header.
\<close>

theorem getMime_overwrites_same_name:
  "binary_field invoice_item ''invoice'' = Some invoice_data
   \<and> binaryPropertyName overwrite_env 0 = ''invoice''
   \<and> resp_headers (mime_response []) ''content-type'' = Some []
   \<and> output_field (execute overwrite_env Message_getMime [invoice_item]) 0 ''invoice''
       = Some \<lparr>bin_data = [], bin_fileName = Some ''m.eml'', bin_mimeType = ''text/plain''\<rparr>
   \<and> output_field (execute overwrite_env Message_getMime [invoice_item]) 0 ''invoice''
       \<noteq> Some invoice_data"
  by (simp add: execute_def run_operation_def in_place_def item_body_def message_getMime_item_def
      microsoftApiRequest_def send_def overwrite_env_def example_env_def mime_response_def
      initial_state_def invoice_item_def invoice_data_def binary_field_def output_field_def
      store_binary_def copy_item_def prepareBinaryData_def Let_def)

subsection \<open>What one iteration changes\<close>

lemma push_fields [simp]:
  "returnData (push st xs) = returnData st @ xs"
  "items (push st xs) = items st"
  by (simp_all add: push_def)

lemma set_select_filter_fields [simp]:
  "returnData (set_select_filter af st) = returnData st"
  "items (set_select_filter af st) = items st"
  "calls (set_select_filter af st) = calls st"
  by (simp_all add: set_select_filter_def Let_def)

lemma constructExecutionMetaData_origin:
  "x \<in> set (constructExecutionMetaData xs i) \<Longrightarrow> item_pairedItem x = Some i"
  by (auto simp: constructExecutionMetaData_def)

lemma microsoftApiRequest_fields:
  assumes "microsoftApiRequest env m ep b q opts st = Inr (resp, st') \<or>
           microsoftApiRequest env m ep b q opts st = Inl (e, st')"
  shows "returnData st' = returnData st \<and> items st' = items st"
  using assms by (auto dest!: microsoftApiRequest_Inr microsoftApiRequest_Inl)

lemma send_fields:
  assumes "send env r st = Inr (resp, st') \<or> send env r st = Inl (e, st')"
  shows "returnData st' = returnData st \<and> items st' = items st"
  using assms by (auto dest!: send_Inr send_Inl)

lemma microsoftApiRequestAllItems_fields:
  assumes "microsoftApiRequestAllItems env m ep b q st = Inr (v, st') \<or>
           microsoftApiRequestAllItems env m ep b q st = Inl (e, st')"
  shows "returnData st' = returnData st \<and> items st' = items st"
  using assms
  by (auto simp: microsoftApiRequestAllItems_def Let_def split: prod.splits sum.splits)

lemma downloadAttachments_call_fields:
  assumes "downloadAttachments_call env msgs prefix st = Inr (d, st') \<or>
           downloadAttachments_call env msgs prefix st = Inl (e, st')"
  shows "returnData st' = returnData st \<and> items st' = items st"
  using assms
  by (auto simp: downloadAttachments_call_def Let_def split: prod.splits sum.splits)

lemma upload_chunks_fields:
  assumes "upload_chunks env url buf off st = Inr st' \<or>
           upload_chunks env url buf off st = Inl (e, st')"
  shows "returnData st' = returnData st \<and> items st' = items st"
  using assms by (auto dest!: upload_chunks_Inr upload_chunks_Inl)

text \<open>The accumulating bodies: a successful iteration appends records tagged with its own
  index, a failing one appends nothing.\<close>

lemma message_delete_item_Next:
  assumes "message_delete_item env i st = Inr (Next st')"
  shows "\<exists>x. returnData st' = returnData st @ [x] \<and> item_pairedItem x = Some i"
proof -
  from assms obtain resp st1 where
    r: "microsoftApiRequest env ''DELETE'' (''/messages/'' @ messageId env i) NoBody Map.empty [] st
          = Inr (resp, st1)"
    and s: "st' = push st1 (constructExecutionMetaData (returnJsonArray success_json) i)"
    by (auto simp: message_delete_item_def split: sum.splits)
  from microsoftApiRequest_fields[OF disjI1, OF r] s show ?thesis
    by (simp add: success_record)
qed

lemma message_delete_item_Inl:
  assumes "message_delete_item env i st = Inl (e, st')"
  shows "returnData st' = returnData st"
proof -
  from assms have "microsoftApiRequest env ''DELETE'' (''/messages/'' @ messageId env i) NoBody Map.empty [] st
          = Inl (e, st')"
    by (auto simp: message_delete_item_def split: sum.splits)
  from microsoftApiRequest_fields[OF disjI2, OF this] show ?thesis by simp
qed

lemma message_delete_item_Return: "message_delete_item env i st \<noteq> Inr (Return out)"
  by (auto simp: message_delete_item_def split: sum.splits)

lemma message_get_item_Next:
  assumes "message_get_item env i st = Inr (Next st')"
  shows "\<exists>resp. \<not> truthy (af_dataPropertyAttachmentsPrefixName (additionalFields env i))
           \<and> returnData st' = returnData st @ constructExecutionMetaData (returnJsonArray (resp_body resp)) i
           \<and> (\<exists>log r. server env log r = Inr resp)"
proof -
  let ?st1 = "set_select_filter (additionalFields env i) st"
  from assms obtain resp st2 where
    r: "microsoftApiRequest env ''GET'' (''/messages/'' @ messageId env i) NoBody (qs ?st1) [] ?st1
          = Inr (resp, st2)"
    and p: "\<not> truthy (af_dataPropertyAttachmentsPrefixName (additionalFields env i))"
    and s: "st' = push st2 (constructExecutionMetaData (returnJsonArray (resp_body resp)) i)"
    by (auto simp: message_get_item_def Let_def split: sum.splits if_splits)
  from microsoftApiRequest_Inr[OF r] have "\<exists>log r. server env log r = Inr resp" by blast
  with microsoftApiRequest_fields[OF disjI1, OF r] s p show ?thesis
    by auto
qed

lemma message_get_item_Inl:
  assumes "message_get_item env i st = Inl (e, st')"
  shows "returnData st' = returnData st"
proof -
  let ?st1 = "set_select_filter (additionalFields env i) st"
  let ?req = "microsoftApiRequest env ''GET'' (''/messages/'' @ messageId env i) NoBody (qs ?st1) [] ?st1"
  show ?thesis
  proof (cases ?req)
    case (Inl x)
    with assms have "?req = Inl (e, st')"
      by (simp add: message_get_item_def Let_def)
    from microsoftApiRequest_fields[OF disjI2, OF this] show ?thesis by simp
  next
    case (Inr y)
    obtain resp st2 where y: "y = (resp, st2)" by (cases y)
    from microsoftApiRequest_fields[OF disjI1, OF Inr[unfolded y]]
    have 2: "returnData st2 = returnData st" by simp
    from assms Inr y have "downloadAttachments_call env (resp_body resp)
              (the (af_dataPropertyAttachmentsPrefixName (additionalFields env i))) st2 = Inl (e, st')"
      by (auto simp: message_get_item_def Let_def split: sum.splits if_splits)
    from downloadAttachments_call_fields[OF disjI2, OF this] 2 show ?thesis by simp
  qed
qed

lemma message_getAll_item_Next:
  assumes "message_getAll_item env i st = Inr (Next st')"
  shows "\<exists>xs. returnData st' = returnData st @ constructExecutionMetaData xs i"
proof -
  let ?st1 = "set_select_filter (additionalFields env i) st"
  let ?st2 = "?st1\<lparr>qs := (qs ?st1)(''$top'' \<mapsto> JNum (limit env i))\<rparr>"
  from assms obtain v st4 xs where
    f: "(returnAll env i \<and> microsoftApiRequestAllItems env ''GET'' ''/messages'' NoBody (qs ?st1) ?st1 = Inr (v, st4))
        \<or> (\<exists>r. microsoftApiRequest env ''GET'' ''/messages'' NoBody (qs ?st2) [] ?st2 = Inr (r, st4))"
    and s: "(\<exists>st5 e. (downloadAttachments_call env v (the (af_dataPropertyAttachmentsPrefixName (additionalFields env i))) st4 = Inr (xs, st5)
                 \<or> downloadAttachments_call env v (the (af_dataPropertyAttachmentsPrefixName (additionalFields env i))) st4 = Inl (e, st5))
              \<and> st' = push st5 (constructExecutionMetaData xs i))
            \<or> st' = push st4 (constructExecutionMetaData xs i)"
    by (auto simp: message_getAll_item_def Let_def split: sum.splits if_splits prod.splits)
  from f have 4: "returnData st4 = returnData st"
    using microsoftApiRequestAllItems_fields[of env "''GET''" "''/messages''" NoBody "qs ?st1" ?st1 v st4]
          microsoftApiRequest_fields[of env "''GET''" "''/messages''" NoBody "qs ?st2" "[]" ?st2 _ st4]
    by auto
  from s 4 show ?thesis
    using downloadAttachments_call_fields by fastforce
qed

lemma microsoftApiRequestAllItems_state:
  assumes "microsoftApiRequestAllItems env m ep b q st = Inr (v, st') \<or>
           microsoftApiRequestAllItems env m ep b q st = Inl (e, st')"
  shows "\<exists>issued. st' = st\<lparr>calls := calls st @ issued\<rparr>"
  using assms
  by (auto simp: microsoftApiRequestAllItems_def Let_def split: prod.splits sum.splits)

lemma downloadAttachments_call_state:
  assumes "downloadAttachments_call env msgs prefix st = Inr (d, st') \<or>
           downloadAttachments_call env msgs prefix st = Inl (e, st')"
  shows "\<exists>issued. st' = st\<lparr>calls := calls st @ issued\<rparr>"
  using assms
  by (auto simp: downloadAttachments_call_def Let_def split: prod.splits sum.splits)

lemmas request_states =
  microsoftApiRequest_Inr microsoftApiRequest_Inl
  microsoftApiRequestAllItems_state[OF disjI1] microsoftApiRequestAllItems_state[OF disjI2]
  downloadAttachments_call_state[OF disjI1] downloadAttachments_call_state[OF disjI2]

lemma message_getAll_item_Inl:
  assumes "message_getAll_item env i st = Inl (e, st')"
  shows "returnData st' = returnData st"
  using assms
  by (auto simp: message_getAll_item_def Let_def split: sum.splits if_splits prod.splits
           dest!: request_states)

lemma message_getAll_item_Return: "message_getAll_item env i st \<noteq> Inr (Return out)"
  by (auto simp: message_getAll_item_def Let_def split: sum.splits if_splits prod.splits)

lemma add_item_Next:
  assumes "messageAttachment_add_item env i st = Inr (Next st')"
  shows "\<exists>x. returnData st' = returnData st @ [x] \<and> item_pairedItem x = Some i"
  using assms
  by (auto simp: messageAttachment_add_item_def Let_def success_record
           split: option.splits sum.splits if_splits
           dest!: send_Inr send_Inl upload_chunks_Inr)

lemma add_item_Inl:
  assumes "messageAttachment_add_item env i st = Inl (e, st')"
  shows "returnData st' = returnData st"
  using assms
  by (auto simp: messageAttachment_add_item_def Let_def
           split: option.splits sum.splits if_splits
           dest!: send_Inr send_Inl upload_chunks_Inl)

lemma add_item_Return: "messageAttachment_add_item env i st \<noteq> Inr (Return out)"
  by (auto simp: messageAttachment_add_item_def Let_def split: option.splits sum.splits if_splits)

text \<open>The in-place bodies: a successful iteration replaces item \<open>i\<close> by its copy with one more
  binary entry, a failing one leaves \<open>items\<close> alone; neither touches \<open>returnData\<close>.\<close>

lemma getMime_item_Next:
  assumes "message_getMime_item env i st = Inr (Next st')"
  shows "\<exists>bd. items st' = (items st)[i := store_binary (copy_item (items st ! i)) (binaryPropertyName env i) bd]
           \<and> returnData st' = returnData st"
  using assms
  by (auto simp: message_getMime_item_def Let_def split: sum.splits dest!: request_states)

lemma getMime_item_Inl:
  assumes "message_getMime_item env i st = Inl (e, st')"
  shows "items st' = items st \<and> returnData st' = returnData st"
  using assms
  by (auto simp: message_getMime_item_def Let_def split: sum.splits dest!: request_states)

lemma getMime_item_Return: "message_getMime_item env i st \<noteq> Inr (Return out)"
  by (auto simp: message_getMime_item_def Let_def split: sum.splits)

lemma download_item_Next:
  assumes "messageAttachment_download_item env i st = Inr (Next st')"
  shows "\<exists>bd. items st' = (items st)[i := store_binary (copy_item (items st ! i)) (binaryPropertyName env i) bd]
           \<and> returnData st' = returnData st"
  using assms
  by (auto simp: messageAttachment_download_item_def Let_def split: sum.splits dest!: request_states)
     blast+

lemma download_item_Inl:
  assumes "messageAttachment_download_item env i st = Inl (e, st')"
  shows "items st' = items st \<and> returnData st' = returnData st"
  using assms
  by (auto simp: messageAttachment_download_item_def Let_def split: sum.splits dest!: request_states)

lemma download_item_Return: "messageAttachment_download_item env i st \<noteq> Inr (Return out)"
  by (auto simp: messageAttachment_download_item_def Let_def split: sum.splits)

subsection \<open>The in-place operations\<close>

lemma mutate_loop_total:
  "continueOnFail env \<Longrightarrow> \<exists>r. mutate_loop env body ixs st = Inr r"
proof (induction ixs arbitrary: st)
  case Nil
  show ?case by simp
next
  case (Cons i ixs)
  show ?case
  proof (cases "body i st")
    case (Inl x)
    obtain e s1 where "x = (e, s1)" by (cases x)
    with Inl Cons show ?thesis by simp
  next
    case (Inr y)
    with Cons show ?thesis by (cases y) simp_all
  qed
qed

lemma mutate_loop_items:
  assumes N: "\<And>i s s'. body i s = Inr (Next s') \<Longrightarrow>
                \<exists>bd. items s' = (items s)[i := store_binary (copy_item (items s ! i)) (name i) bd]
                  \<and> returnData s' = returnData s"
      and E: "\<And>i s e s'. body i s = Inl (e, s') \<Longrightarrow> items s' = items s \<and> returnData s' = returnData s"
      and R: "\<And>i s out. body i s \<noteq> Inr (Return out)"
  shows "distinct ixs \<Longrightarrow> mutate_loop env body ixs st = Inr r \<Longrightarrow>
         \<exists>st'. r = Next st' \<and> length (items st') = length (items st) \<and> returnData st' = returnData st
           \<and> (\<forall>j<length (items st).
                (j \<notin> set ixs \<longrightarrow> items st' ! j = items st ! j) \<and>
                (j \<in> set ixs \<longrightarrow>
                   (\<exists>s s' bd. body j s = Inr (Next s')
                      \<and> items st' ! j = store_binary (copy_item (items st ! j)) (name j) bd)
                 \<or> (continueOnFail env \<and> (\<exists>s s' e. body j s = Inl (e, s')
                      \<and> items st' ! j = (items st ! j)\<lparr>item_json := error_json e\<rparr>))))"
proof (induction ixs arbitrary: st)
  case Nil
  then show ?case by auto
next
  case (Cons i ixs)
  let ?Q = "\<lambda>j old new.
       (\<exists>s s' bd. body j s = Inr (Next s') \<and> new = store_binary (copy_item old) (name j) bd)
     \<or> (continueOnFail env \<and> (\<exists>s s' e. body j s = Inl (e, s') \<and> new = old\<lparr>item_json := error_json e\<rparr>))"
  have "\<exists>s2 x. items s2 = (items st)[i := x] \<and> returnData s2 = returnData st
          \<and> ?Q i (items st ! i) x \<and> mutate_loop env body ixs s2 = Inr r"
  proof (cases "body i st")
    case (Inl y)
    obtain e s1 where y: "y = (e, s1)" by (cases y)
    from Cons.prems(2) Inl y have cof: "continueOnFail env"
      by (simp split: if_splits)
    let ?s2 = "s1\<lparr>items := (items s1)[i := (items s1 ! i)\<lparr>item_json := error_json e\<rparr>]\<rparr>"
    from Cons.prems(2) Inl y cof have l: "mutate_loop env body ixs ?s2 = Inr r" by simp
    from E[OF Inl[unfolded y]] have s1: "items s1 = items st" "returnData s1 = returnData st" by simp_all
    have "items ?s2 = (items st)[i := (items st ! i)\<lparr>item_json := error_json e\<rparr>]"
      "returnData ?s2 = returnData st"
      using s1 by simp_all
    moreover have "?Q i (items st ! i) ((items st ! i)\<lparr>item_json := error_json e\<rparr>)"
      using cof Inl y by blast
    ultimately show ?thesis using l by blast
  next
    case (Inr y)
    show ?thesis
    proof (cases y)
      case (Return out)
      with Inr R show ?thesis by simp
    next
      case (Next s1)
      from Cons.prems(2) Inr Next have l: "mutate_loop env body ixs s1 = Inr r" by simp
      from N[OF Inr[unfolded Next]] obtain bd where
        s1: "items s1 = (items st)[i := store_binary (copy_item (items st ! i)) (name i) bd]"
            "returnData s1 = returnData st"
        by blast
      moreover have "?Q i (items st ! i) (store_binary (copy_item (items st ! i)) (name i) bd)"
        using Inr Next by blast
      ultimately show ?thesis using l by blast
    qed
  qed
  then obtain s2 x where
    s2: "items s2 = (items st)[i := x]" "returnData s2 = returnData st"
    and q: "?Q i (items st ! i) x" and l: "mutate_loop env body ixs s2 = Inr r"
    by blast
  from Cons.prems(1) have d: "distinct ixs" "i \<notin> set ixs" by simp_all
  from Cons.IH[OF d(1) l] obtain st' where
    r: "r = Next st'" and len: "length (items st') = length (items s2)"
    and rd: "returnData st' = returnData s2"
    and ih: "\<forall>j<length (items s2).
                (j \<notin> set ixs \<longrightarrow> items st' ! j = items s2 ! j) \<and>
                (j \<in> set ixs \<longrightarrow> ?Q j (items s2 ! j) (items st' ! j))"
    by blast
  have "\<forall>j<length (items st).
                (j \<notin> set (i # ixs) \<longrightarrow> items st' ! j = items st ! j) \<and>
                (j \<in> set (i # ixs) \<longrightarrow> ?Q j (items st ! j) (items st' ! j))"
  proof (intro allI impI)
    fix j assume j: "j < length (items st)"
    then have j2: "j < length (items s2)" using s2 by simp
    show "(j \<notin> set (i # ixs) \<longrightarrow> items st' ! j = items st ! j) \<and>
          (j \<in> set (i # ixs) \<longrightarrow> ?Q j (items st ! j) (items st' ! j))"
    proof (cases "j = i")
      case True
      with d(2) ih j2 have "items st' ! j = items s2 ! j" by blast
      also have "\<dots> = x" using True j s2 by simp
      finally show ?thesis using q True by simp
    next
      case False
      then have same: "items s2 ! j = items st ! j" using s2 by simp
      from ih j2 have "(j \<notin> set ixs \<longrightarrow> items st' ! j = items s2 ! j) \<and>
                (j \<in> set ixs \<longrightarrow> ?Q j (items s2 ! j) (items st' ! j))" by blast
      then show ?thesis unfolding same using False by simp
    qed
  qed
  with r len rd s2 show ?case by simp
qed

lemma in_place_body:
  assumes "in_place op"
  shows "item_body env op i s = Inr (Next s') \<Longrightarrow>
           \<exists>bd. items s' = (items s)[i := store_binary (copy_item (items s ! i)) (binaryPropertyName env i) bd]
                  \<and> returnData s' = returnData s"
    and "item_body env op i s = Inl (e, s') \<Longrightarrow> items s' = items s \<and> returnData s' = returnData s"
    and "item_body env op i s \<noteq> Inr (Return out)"
  using assms getMime_item_Next download_item_Next getMime_item_Inl download_item_Inl
        getMime_item_Return download_item_Return
  by (auto simp: in_place_def item_body_def)

text \<open>
  C4. For \<open>message.getMime\<close> and \<open>messageAttachment.download\<close>: with continue-on-fail
  \<open>execute\<close> always returns; whenever it returns, the output is the \<open>items\<close> sequence of the
  final state, \<open>returnData\<close> is still empty, the output has the length of the input, and
  the item at each position \<open>i\<close> comes from the input item at \<open>i\<close>: either the iteration for
  \<open>i\<close> succeeded and the item is the copy of the input item with one more binary entry, or
  continue-on-fail is on, the iteration for \<open>i\<close> failed with an error \<open>e\<close>, and the item is
  the input item with its JSON replaced by the error marker of \<open>e\<close>.
\<close>

theorem in_place_output:
  assumes "in_place op"
  shows "(continueOnFail env \<longrightarrow> (\<exists>out. execute env op items0 = Inr out))
       \<and> (\<forall>out. execute env op items0 = Inr out \<longrightarrow>
             length out = length items0
           \<and> (\<exists>st. run_operation env op items0 = Inr (Next st) \<and> out = items st \<and> returnData st = [])
           \<and> (\<forall>i<length items0.
                 (\<exists>s s' bd. item_body env op i s = Inr (Next s')
                    \<and> out ! i = store_binary (copy_item (items0 ! i)) (binaryPropertyName env i) bd)
               \<or> (continueOnFail env \<and> (\<exists>s s' e. item_body env op i s = Inl (e, s')
                    \<and> out ! i = (items0 ! i)\<lparr>item_json := error_json e\<rparr>))))"
proof -
  let ?loop = "mutate_loop env (item_body env op) [0..<length items0] (initial_state items0)"
  have run: "run_operation env op items0 = ?loop"
    using assms by (simp add: run_operation_def Let_def)
  have inv: "\<And>r. ?loop = Inr r \<Longrightarrow>
      \<exists>st'. r = Next st' \<and> length (items st') = length items0 \<and> returnData st' = []
        \<and> (\<forall>i<length items0.
                 (\<exists>s s' bd. item_body env op i s = Inr (Next s')
                    \<and> items st' ! i = store_binary (copy_item (items0 ! i)) (binaryPropertyName env i) bd)
               \<or> (continueOnFail env \<and> (\<exists>s s' e. item_body env op i s = Inl (e, s')
                    \<and> items st' ! i = (items0 ! i)\<lparr>item_json := error_json e\<rparr>)))"
  proof -
    fix r assume l: "?loop = Inr r"
    from mutate_loop_items[where body = "item_body env op" and name = "binaryPropertyName env"
        and env = env and st = "initial_state items0" and r = r and ixs = "[0..<length items0]",
        OF in_place_body[OF assms] distinct_upt l]
    show "\<exists>st'. r = Next st' \<and> length (items st') = length items0 \<and> returnData st' = []
        \<and> (\<forall>i<length items0.
                 (\<exists>s s' bd. item_body env op i s = Inr (Next s')
                    \<and> items st' ! i = store_binary (copy_item (items0 ! i)) (binaryPropertyName env i) bd)
               \<or> (continueOnFail env \<and> (\<exists>s s' e. item_body env op i s = Inl (e, s')
                    \<and> items st' ! i = (items0 ! i)\<lparr>item_json := error_json e\<rparr>)))"
      by (simp add: initial_state_def)
  qed
  have A: "continueOnFail env \<longrightarrow> (\<exists>out. execute env op items0 = Inr out)"
  proof
    assume "continueOnFail env"
    from mutate_loop_total[OF this] obtain r where l: "?loop = Inr r" by blast
    from inv[OF l] obtain st' where "r = Next st'" by blast
    with l run assms show "\<exists>out. execute env op items0 = Inr out"
      by (simp add: execute_def)
  qed
  have B: "\<forall>out. execute env op items0 = Inr out \<longrightarrow>
             length out = length items0
           \<and> (\<exists>st. run_operation env op items0 = Inr (Next st) \<and> out = items st \<and> returnData st = [])
           \<and> (\<forall>i<length items0.
                 (\<exists>s s' bd. item_body env op i s = Inr (Next s')
                    \<and> out ! i = store_binary (copy_item (items0 ! i)) (binaryPropertyName env i) bd)
               \<or> (continueOnFail env \<and> (\<exists>s s' e. item_body env op i s = Inl (e, s')
                    \<and> out ! i = (items0 ! i)\<lparr>item_json := error_json e\<rparr>)))"
  proof (intro allI impI)
    fix out assume ex: "execute env op items0 = Inr out"
    then obtain r where l: "?loop = Inr r"
      unfolding execute_def run by (cases ?loop) (auto split: prod.splits)
    from inv[OF l] obtain st' where r: "r = Next st'" and len: "length (items st') = length items0"
      and rd: "returnData st' = []"
      and q: "\<forall>i<length items0.
                 (\<exists>s s' bd. item_body env op i s = Inr (Next s')
                    \<and> items st' ! i = store_binary (copy_item (items0 ! i)) (binaryPropertyName env i) bd)
               \<or> (continueOnFail env \<and> (\<exists>s s' e. item_body env op i s = Inl (e, s')
                    \<and> items st' ! i = (items0 ! i)\<lparr>item_json := error_json e\<rparr>))"
      by blast
    from ex l r run assms have out: "out = items st'" by (simp add: execute_def)
    from l r run have "run_operation env op items0 = Inr (Next st')" by simp
    with out len rd q show "length out = length items0
           \<and> (\<exists>st. run_operation env op items0 = Inr (Next st) \<and> out = items st \<and> returnData st = [])
           \<and> (\<forall>i<length items0.
                 (\<exists>s s' bd. item_body env op i s = Inr (Next s')
                    \<and> out ! i = store_binary (copy_item (items0 ! i)) (binaryPropertyName env i) bd)
               \<or> (continueOnFail env \<and> (\<exists>s s' e. item_body env op i s = Inl (e, s')
                    \<and> out ! i = (items0 ! i)\<lparr>item_json := error_json e\<rparr>)))"
      by blast
  qed
  from A B show ?thesis by blast
qed

theorem in_place_output_witness:
  "in_place Message_getMime
   \<and> continueOnFail (bad_at 1 True)
   \<and> length (the_output (execute (bad_at 1 True) Message_getMime [invoice_item, plain_item])) = 2
   \<and> map item_json (the_output (execute (bad_at 1 True) Message_getMime [invoice_item, plain_item]))
       = [JObj [(''id'', JNum 1)], error_json not_found]
   \<and> binary_field (the_output (execute (bad_at 1 True) Message_getMime [invoice_item, plain_item]) ! 0)
        ''invoice'' = Some invoice_data"
proof -
  let ?E = "bad_at 1 True"
  let ?its = "[invoice_item, plain_item]"
  have h: "in_place Message_getMime" by (simp add: in_place_def)
  have cof: "continueOnFail ?E" by (simp add: bad_at_def example_env_def)
  note t = in_place_output[OF h, of ?E ?its]
  from t cof obtain out where o: "execute ?E Message_getMime ?its = Inr out" by blast
  with t have "length out = length ?its" by blast
  with o have len: "length (the_output (execute ?E Message_getMime ?its)) = 2"
    by (simp add: the_output_def)
  have idx: "[0..<length ?its] = [0, 1]" by (simp add: upt_rec)
  have ev: "the_output (execute ?E Message_getMime ?its) =
      [store_binary (copy_item invoice_item) ''data''
         (prepareBinaryData ?E (bufferFrom ?E (JStr ''MIME-Version: 1.0'')) (Some ''m.eml'')
            (Some ''message/rfc822'')),
       plain_item\<lparr>item_json := error_json not_found\<rparr>]"
    unfolding execute_def run_operation_def idx
    by (simp add: in_place_def item_body_def message_getMime_item_def microsoftApiRequest_def
        send_def bad_at_def example_env_def picky_server_def mime_response_def initial_state_def
        the_output_def Let_def)
  have j: "map item_json (the_output (execute ?E Message_getMime ?its))
       = [JObj [(''id'', JNum 1)], error_json not_found]"
    unfolding ev by (simp add: store_binary_def copy_item_def invoice_item_def plain_item_def)
  have b: "binary_field (the_output (execute ?E Message_getMime ?its) ! 0) ''invoice'' = Some invoice_data"
    unfolding ev by (simp add: binary_field_store) (simp add: binary_field_def invoice_item_def)
  from h cof len j b show ?thesis by blast
qed

subsection \<open>The other accumulating loops\<close>

lemma set_default_select_fields [simp]:
  "returnData (set_default_select af st) = returnData st"
  "items (set_default_select af st) = items st"
  "calls (set_default_select af st) = calls st"
  by (simp_all add: set_default_select_def Let_def)

lemma set_filter_fields [simp]:
  "returnData (set_filter af st) = returnData st"
  "items (set_filter af st) = items st"
  "calls (set_filter af st) = calls st"
  by (simp_all add: set_filter_def)

lemma patch_recipients_fields:
  assumes "patch_recipients env mid af st = Inr st' \<or> patch_recipients env mid af st = Inl (e, st')"
  shows "returnData st' = returnData st \<and> items st' = items st"
  using assms
  by (auto simp: patch_recipients_def Let_def split: if_splits json.splits sum.splits
           dest!: request_states)

lemma post_attachments_fields:
  assumes "post_attachments env rd atts st = Inr st' \<or> post_attachments env rd atts st = Inl (e, st')"
  shows "returnData st' = returnData st \<and> items st' = items st"
  using assms
proof (induction atts arbitrary: st)
  case Nil
  then show ?case by auto
next
  case (Cons a atts)
  show ?case
  proof (cases "get_prop rd ''id''")
    case (Inl x)
    with Cons.prems show ?thesis by auto
  next
    case (Inr rid)
    show ?thesis
    proof (cases "microsoftApiRequest env ''POST'' (''/messages/'' @ template env rid @ ''/attachments'')
                 (JsonBody a) Map.empty [] st")
      case (Inl x)
      obtain e1 s1 where x: "x = (e1, s1)" by (cases x)
      from microsoftApiRequest_fields[OF disjI2, OF Inl[unfolded x]] Cons.prems Inr Inl x
      show ?thesis by auto
    next
      case r: (Inr y)
      obtain resp s1 where y: "y = (resp, s1)" by (cases y)
      from Cons.prems Inr r y have
        "post_attachments env rd atts s1 = Inr st' \<or> post_attachments env rd atts s1 = Inl (e, st')"
        by simp
      from Cons.IH[OF this] microsoftApiRequest_fields[OF disjI1, OF r[unfolded y]]
      show ?thesis by simp
    qed
  qed
qed

lemma reply_attachments_fields:
  assumes "reply_attachments env af rd i st = Inr st' \<or> reply_attachments env af rd i st = Inl (e, st')"
  shows "returnData st' = returnData st \<and> items st' = items st"
  using assms post_attachments_fields[of env rd _ st st' e]
  by (auto simp: reply_attachments_def split: if_splits sum.splits)

lemma send_reply_fields:
  assumes "send_reply env flag rd st = Inr st' \<or> send_reply env flag rd st = Inl (e, st')"
  shows "returnData st' = returnData st \<and> items st' = items st"
  using assms
  by (auto simp: send_reply_def split: if_splits sum.splits dest!: request_states)

lemma fetch_list_fields:
  assumes "fetch_list env i ep b1 q b2 st = Inr (v, st') \<or> fetch_list env i ep b1 q b2 st = Inl (e, st')"
  shows "returnData st' = returnData st \<and> items st' = items st"
  using assms
  by (auto simp: fetch_list_def Let_def split: if_splits sum.splits dest!: request_states)

lemma pushedI_success:
  "returnData st1 = returnData st \<Longrightarrow>
   pushed env i st (push st1 (constructExecutionMetaData (returnJsonArray success_json) i))"
  unfolding pushed_def by (intro exI[of _ success_json]) simp

lemma pushedI_response:
  "returnData st1 = returnData st \<Longrightarrow> server env log r = Inr resp \<Longrightarrow>
   pushed env i st (push st1 (constructExecutionMetaData (returnJsonArray (resp_body resp)) i))"
  unfolding pushed_def by (intro exI[of _ "resp_body resp"]) auto

lemma message_delete_item_pushed:
  "message_delete_item env i st = Inr (Next st') \<Longrightarrow> pushed env i st st'"
  by (auto simp: message_delete_item_def split: sum.splits dest!: request_states
           intro!: pushedI_success)

lemma add_item_pushed:
  "messageAttachment_add_item env i st = Inr (Next st') \<Longrightarrow> pushed env i st st'"
  by (auto simp: messageAttachment_add_item_def Let_def
           split: option.splits sum.splits if_splits
           dest!: send_Inr send_Inl upload_chunks_Inr intro!: pushedI_success)

lemma message_get_item_pushed:
  "message_get_item env i st = Inr (Next st') \<Longrightarrow> pushed env i st st'"
  by (auto simp: message_get_item_def Let_def split: sum.splits if_splits
           dest!: request_states intro!: pushedI_response)

lemma message_update_item_pushed:
  "message_update_item env i st = Inr (Next st') \<Longrightarrow> pushed env i st st'"
  by (auto simp: message_update_item_def Let_def split: sum.splits
           dest!: request_states intro!: pushedI_response)

lemma message_update_item_Inl:
  "message_update_item env i st = Inl (e, st') \<Longrightarrow> returnData st' = returnData st"
  by (auto simp: message_update_item_def Let_def split: sum.splits dest!: request_states)

lemma message_update_item_Return: "message_update_item env i st \<noteq> Inr (Return out)"
  by (auto simp: message_update_item_def Let_def split: sum.splits)

lemma draft_create_item_pushed:
  "draft_create_item env i st = Inr (Next st') \<Longrightarrow> pushed env i st st'"
  by (auto simp: draft_create_item_def Let_def split: sum.splits
           dest!: request_states intro!: pushedI_response)

lemma draft_create_item_Inl:
  "draft_create_item env i st = Inl (e, st') \<Longrightarrow> returnData st' = returnData st"
  by (auto simp: draft_create_item_def Let_def split: sum.splits dest!: request_states)

lemma draft_create_item_Return: "draft_create_item env i st \<noteq> Inr (Return out)"
  by (auto simp: draft_create_item_def Let_def split: sum.splits)

lemma draft_send_item_pushed:
  "draft_send_item env i st = Inr (Next st') \<Longrightarrow> pushed env i st st'"
  by (auto simp: draft_send_item_def Let_def split: sum.splits
           dest!: request_states patch_recipients_fields[OF disjI1] intro!: pushedI_success)

lemma draft_send_item_Inl:
  "draft_send_item env i st = Inl (e, st') \<Longrightarrow> returnData st' = returnData st"
  by (auto simp: draft_send_item_def Let_def split: sum.splits
           dest!: request_states patch_recipients_fields[OF disjI1] patch_recipients_fields[OF disjI2])

lemma draft_send_item_Return: "draft_send_item env i st \<noteq> Inr (Return out)"
  by (auto simp: draft_send_item_def Let_def split: sum.splits)

lemma message_reply_item_pushed:
  "message_reply_item env i st = Inr (Next st') \<Longrightarrow> pushed env i st st'"
  by (auto simp: message_reply_item_def Let_def split: sum.splits
           dest!: request_states reply_attachments_fields[OF disjI1] send_reply_fields[OF disjI1]
           intro!: pushedI_response)

lemma message_reply_item_Inl:
  "message_reply_item env i st = Inl (e, st') \<Longrightarrow> returnData st' = returnData st"
  by (auto simp: message_reply_item_def Let_def split: sum.splits
           dest!: request_states reply_attachments_fields[OF disjI1] send_reply_fields[OF disjI1]
                  reply_attachments_fields[OF disjI2] send_reply_fields[OF disjI2])

lemma message_reply_item_Return: "message_reply_item env i st \<noteq> Inr (Return out)"
  by (auto simp: message_reply_item_def Let_def split: sum.splits)

lemma message_move_item_pushed:
  "message_move_item env i st = Inr (Next st') \<Longrightarrow> pushed env i st st'"
  by (auto simp: message_move_item_def split: sum.splits dest!: request_states
           intro!: pushedI_success)

lemma message_move_item_Inl:
  "message_move_item env i st = Inl (e, st') \<Longrightarrow> returnData st' = returnData st"
  by (auto simp: message_move_item_def split: sum.splits dest!: request_states)

lemma message_move_item_Return: "message_move_item env i st \<noteq> Inr (Return out)"
  by (auto simp: message_move_item_def split: sum.splits)

lemma message_send_item_pushed:
  "message_send_item env i st = Inr (Next st') \<Longrightarrow> pushed env i st st'"
  by (auto simp: message_send_item_def Let_def split: sum.splits dest!: request_states
           intro!: pushedI_success)

lemma message_send_item_Inl:
  "message_send_item env i st = Inl (e, st') \<Longrightarrow> returnData st' = returnData st"
  by (auto simp: message_send_item_def Let_def split: sum.splits dest!: request_states)

lemma message_send_item_Return: "message_send_item env i st \<noteq> Inr (Return out)"
  by (auto simp: message_send_item_def Let_def split: sum.splits)

lemma messageAttachment_get_item_pushed:
  "messageAttachment_get_item env i st = Inr (Next st') \<Longrightarrow> pushed env i st st'"
  by (auto simp: messageAttachment_get_item_def Let_def split: sum.splits
           dest!: request_states intro!: pushedI_response)

lemma messageAttachment_get_item_Inl:
  "messageAttachment_get_item env i st = Inl (e, st') \<Longrightarrow> returnData st' = returnData st"
  by (auto simp: messageAttachment_get_item_def Let_def split: sum.splits dest!: request_states)

lemma messageAttachment_get_item_Return: "messageAttachment_get_item env i st \<noteq> Inr (Return out)"
  by (auto simp: messageAttachment_get_item_def Let_def split: sum.splits)

lemma folder_create_item_pushed:
  "folder_create_item env i st = Inr (Next st') \<Longrightarrow> pushed env i st st'"
  by (auto simp: folder_create_item_def Let_def split: sum.splits
           dest!: request_states intro!: pushedI_response)

lemma folder_create_item_Inl:
  "folder_create_item env i st = Inl (e, st') \<Longrightarrow> returnData st' = returnData st"
  by (auto simp: folder_create_item_def Let_def split: sum.splits dest!: request_states)

lemma folder_create_item_Return: "folder_create_item env i st \<noteq> Inr (Return out)"
  by (auto simp: folder_create_item_def Let_def split: sum.splits)

lemma folder_delete_item_pushed:
  "folder_delete_item env i st = Inr (Next st') \<Longrightarrow> pushed env i st st'"
  by (auto simp: folder_delete_item_def split: sum.splits dest!: request_states
           intro!: pushedI_success)

lemma folder_delete_item_Inl:
  "folder_delete_item env i st = Inl (e, st') \<Longrightarrow> returnData st' = returnData st"
  by (auto simp: folder_delete_item_def split: sum.splits dest!: request_states)

lemma folder_delete_item_Return: "folder_delete_item env i st \<noteq> Inr (Return out)"
  by (auto simp: folder_delete_item_def split: sum.splits)

lemma folder_get_item_pushed:
  "folder_get_item env i st = Inr (Next st') \<Longrightarrow> pushed env i st st'"
  by (auto simp: folder_get_item_def Let_def split: sum.splits
           dest!: request_states intro!: pushedI_response)

lemma folder_get_item_Inl:
  "folder_get_item env i st = Inl (e, st') \<Longrightarrow> returnData st' = returnData st"
  by (auto simp: folder_get_item_def Let_def split: sum.splits dest!: request_states)

lemma folder_get_item_Return: "folder_get_item env i st \<noteq> Inr (Return out)"
  by (auto simp: folder_get_item_def Let_def split: sum.splits)

lemma folder_update_item_pushed:
  "folder_update_item env i st = Inr (Next st') \<Longrightarrow> pushed env i st st'"
  by (auto simp: folder_update_item_def split: sum.splits
           dest!: request_states intro!: pushedI_response)

lemma folder_update_item_Inl:
  "folder_update_item env i st = Inl (e, st') \<Longrightarrow> returnData st' = returnData st"
  by (auto simp: folder_update_item_def split: sum.splits dest!: request_states)

lemma folder_update_item_Return: "folder_update_item env i st \<noteq> Inr (Return out)"
  by (auto simp: folder_update_item_def split: sum.splits)

text \<open>The list operations: a successful iteration pushes the records of one value.\<close>

lemma push_list_Next:
  assumes "push_list i (fetch_list env k ep b1 q b2 st1) = Inr (Next st')"
      and "returnData st1 = returnData st"
  shows "\<exists>xs. returnData st' = returnData st @ constructExecutionMetaData xs i"
proof (cases "fetch_list env k ep b1 q b2 st1")
  case (Inl x)
  with assms(1) show ?thesis by (simp add: push_list_def)
next
  case (Inr y)
  obtain v s2 where y: "y = (v, s2)" by (cases y)
  from fetch_list_fields[OF disjI1, OF Inr[unfolded y]] assms(2)
  have "returnData s2 = returnData st" by simp
  moreover from assms(1) Inr y
  have "st' = push s2 (constructExecutionMetaData (returnJsonArray v) i)"
    by (simp add: push_list_def)
  ultimately have "returnData st' = returnData st @ constructExecutionMetaData (returnJsonArray v) i"
    by simp
  then show ?thesis by (rule exI)
qed

lemma push_list_Inl:
  assumes "push_list i (fetch_list env k ep b1 q b2 st1) = Inl (e, st')"
      and "returnData st1 = returnData st"
  shows "returnData st' = returnData st"
proof (cases "fetch_list env k ep b1 q b2 st1")
  case (Inl x)
  with assms(1) have "fetch_list env k ep b1 q b2 st1 = Inl (e, st')"
    by (simp add: push_list_def)
  from fetch_list_fields[OF disjI2, OF this] assms(2) show ?thesis by simp
next
  case (Inr y)
  obtain v s2 where y: "y = (v, s2)" by (cases y)
  with assms(1) Inr show ?thesis by (simp add: push_list_def)
qed

lemma push_list_Return: "push_list i f \<noteq> Inr (Return out)"
  by (cases f) (auto simp: push_list_def)

lemma list_items_Next:
  "messageAttachment_getAll_item env i st = Inr (Next st') \<Longrightarrow>
     \<exists>xs. returnData st' = returnData st @ constructExecutionMetaData xs i"
  "folder_getAll_item env i st = Inr (Next st') \<Longrightarrow>
     \<exists>xs. returnData st' = returnData st @ constructExecutionMetaData xs i"
  "folder_getChildren_item env i st = Inr (Next st') \<Longrightarrow>
     \<exists>xs. returnData st' = returnData st @ constructExecutionMetaData xs i"
  "folderMessage_getAll_item env i st = Inr (Next st') \<Longrightarrow>
     \<exists>xs. returnData st' = returnData st @ constructExecutionMetaData xs i"
proof -
  assume "messageAttachment_getAll_item env i st = Inr (Next st')"
  then show "\<exists>xs. returnData st' = returnData st @ constructExecutionMetaData xs i"
    unfolding messageAttachment_getAll_item_def Let_def by (rule push_list_Next) simp
next
  assume "folder_getAll_item env i st = Inr (Next st')"
  then show "\<exists>xs. returnData st' = returnData st @ constructExecutionMetaData xs i"
    unfolding folder_getAll_item_def Let_def by (rule push_list_Next) simp
next
  assume "folder_getChildren_item env i st = Inr (Next st')"
  then show "\<exists>xs. returnData st' = returnData st @ constructExecutionMetaData xs i"
    unfolding folder_getChildren_item_def Let_def by (rule push_list_Next) simp
next
  assume "folderMessage_getAll_item env i st = Inr (Next st')"
  then show "\<exists>xs. returnData st' = returnData st @ constructExecutionMetaData xs i"
    unfolding folderMessage_getAll_item_def Let_def by (rule push_list_Next) simp
qed

lemma list_items_Inl:
  "messageAttachment_getAll_item env i st = Inl (e, st') \<Longrightarrow> returnData st' = returnData st"
  "folder_getAll_item env i st = Inl (e, st') \<Longrightarrow> returnData st' = returnData st"
  "folder_getChildren_item env i st = Inl (e, st') \<Longrightarrow> returnData st' = returnData st"
  "folderMessage_getAll_item env i st = Inl (e, st') \<Longrightarrow> returnData st' = returnData st"
proof -
  assume "messageAttachment_getAll_item env i st = Inl (e, st')"
  then show "returnData st' = returnData st"
    unfolding messageAttachment_getAll_item_def Let_def by (rule push_list_Inl) simp
next
  assume "folder_getAll_item env i st = Inl (e, st')"
  then show "returnData st' = returnData st"
    unfolding folder_getAll_item_def Let_def by (rule push_list_Inl) simp
next
  assume "folder_getChildren_item env i st = Inl (e, st')"
  then show "returnData st' = returnData st"
    unfolding folder_getChildren_item_def Let_def by (rule push_list_Inl) simp
next
  assume "folderMessage_getAll_item env i st = Inl (e, st')"
  then show "returnData st' = returnData st"
    unfolding folderMessage_getAll_item_def Let_def by (rule push_list_Inl) simp
qed

lemma list_items_Return:
  "messageAttachment_getAll_item env i st \<noteq> Inr (Return out)"
  "folder_getAll_item env i st \<noteq> Inr (Return out)"
  "folder_getChildren_item env i st \<noteq> Inr (Return out)"
  "folderMessage_getAll_item env i st \<noteq> Inr (Return out)"
  unfolding messageAttachment_getAll_item_def folder_getAll_item_def folder_getChildren_item_def
    folderMessage_getAll_item_def Let_def
  by (rule push_list_Return)+

subsection \<open>Loops that push one record per item\<close>

lemma accumulate_loop_one_each:
  assumes cof: "continueOnFail env"
      and N: "\<And>i s s'. i \<in> set ixs \<Longrightarrow> body i s = Inr (Next s') \<Longrightarrow>
                \<exists>x. returnData s' = returnData s @ [x] \<and> item_pairedItem x = Some i"
      and E: "\<And>i s e s'. i \<in> set ixs \<Longrightarrow> body i s = Inl (e, s') \<Longrightarrow> returnData s' = returnData s"
      and R: "\<And>i s out. i \<in> set ixs \<Longrightarrow> body i s \<noteq> Inr (Return out)"
  shows "\<exists>st'. accumulate_loop env body ixs st = Inr (Next st')
           \<and> map item_pairedItem (returnData st') = map item_pairedItem (returnData st) @ map Some ixs"
  using N E R
proof (induction ixs arbitrary: st)
  case Nil
  show ?case by simp
next
  case (Cons i ixs)
  have "\<exists>s2. accumulate_loop env body (i # ixs) st = accumulate_loop env body ixs s2
          \<and> map item_pairedItem (returnData s2) = map item_pairedItem (returnData st) @ [Some i]"
  proof (cases "body i st")
    case (Inl y)
    obtain e s1 where y: "y = (e, s1)" by (cases y)
    from Cons.prems(2)[OF _ Inl[unfolded y]] have "returnData s1 = returnData st" by simp
    then have "map item_pairedItem (returnData (push s1 [\<lparr>item_json = error_json e, item_binary = None,
                  item_pairedItem = Some i\<rparr>])) = map item_pairedItem (returnData st) @ [Some i]"
      by simp
    moreover from accumulate_loop_failure[where body = body, OF Inl[unfolded y]] cof
    have "accumulate_loop env body (i # ixs) st = accumulate_loop env body ixs
            (push s1 [\<lparr>item_json = error_json e, item_binary = None, item_pairedItem = Some i\<rparr>])"
      by simp
    ultimately show ?thesis by blast
  next
    case (Inr y)
    show ?thesis
    proof (cases y)
      case (Return out)
      with Inr Cons.prems(3)[of i st out] show ?thesis by simp
    next
      case (Next s1)
      from Cons.prems(1)[OF _ Inr[unfolded Next]] obtain x where
        "returnData s1 = returnData st @ [x]" "item_pairedItem x = Some i" by auto
      then have "map item_pairedItem (returnData s1) = map item_pairedItem (returnData st) @ [Some i]"
        by simp
      moreover from Inr Next have "accumulate_loop env body (i # ixs) st = accumulate_loop env body ixs s1"
        by simp
      ultimately show ?thesis by blast
    qed
  qed
  then obtain s2 where
    l: "accumulate_loop env body (i # ixs) st = accumulate_loop env body ixs s2"
    and m: "map item_pairedItem (returnData s2) = map item_pairedItem (returnData st) @ [Some i]"
    by blast
  have "\<exists>st'. accumulate_loop env body ixs s2 = Inr (Next st')
           \<and> map item_pairedItem (returnData st') = map item_pairedItem (returnData s2) @ map Some ixs"
  proof (rule Cons.IH)
    fix j s s' assume "j \<in> set ixs" "body j s = Inr (Next s')"
    then show "\<exists>x. returnData s' = returnData s @ [x] \<and> item_pairedItem x = Some j"
      using Cons.prems(1)[of j s s'] by simp
  next
    fix j s e s' assume "j \<in> set ixs" "body j s = Inl (e, s')"
    then show "returnData s' = returnData s"
      using Cons.prems(2)[of j s e s'] by simp
  next
    fix j s out assume "j \<in> set ixs"
    then show "body j s \<noteq> Inr (Return out)"
      using Cons.prems(3)[of j s out] by simp
  qed
  then show ?case unfolding l m by simp
qed

lemma returnJsonArray_single:
  "\<not> is_array j \<Longrightarrow> constructExecutionMetaData (returnJsonArray j) i =
     [\<lparr>item_json = j, item_binary = None, item_pairedItem = Some i\<rparr>]"
  by (cases j) (simp_all add: is_array_def returnJsonArray_def constructExecutionMetaData_def json_item_def)

lemma message_get_item_Return:
  "\<not> truthy (af_dataPropertyAttachmentsPrefixName (additionalFields env i)) \<Longrightarrow>
   message_get_item env i st \<noteq> Inr (Return out)"
  by (auto simp: message_get_item_def Let_def split: sum.splits)

subsection \<open>Every loop: what an iteration pushes\<close>

lemma pushed_records:
  assumes "pushed env i st st'"
  shows "\<exists>xs. returnData st' = returnData st @ xs \<and> (\<forall>x\<in>set xs. item_pairedItem x = Some i)"
proof -
  from assms obtain j where
    "returnData st' = returnData st @ constructExecutionMetaData (returnJsonArray j) i"
    unfolding pushed_def by blast
  then show ?thesis using constructExecutionMetaData_origin by blast
qed

lemma tagged_records:
  assumes "\<exists>xs. returnData st' = returnData st @ constructExecutionMetaData xs i"
  shows "\<exists>xs. returnData st' = returnData st @ xs \<and> (\<forall>x\<in>set xs. item_pairedItem x = Some i)"
  using assms constructExecutionMetaData_origin by blast

lemma unchanged_records:
  assumes "returnData st' = returnData st"
  shows "\<exists>xs. returnData st' = returnData st @ xs \<and> (\<forall>x\<in>set xs. item_pairedItem x = Some i)"
  using assms by (intro exI[of _ "[]"]) simp

lemma item_body_pushed:
  assumes "\<not> in_place op" and "\<not> spreads_list op"
      and "item_body env op i s = Inr (Next s')"
  shows "pushed env i s s'"
  using assms
    message_delete_item_pushed[of env i s s'] message_get_item_pushed[of env i s s']
    message_update_item_pushed[of env i s s'] draft_create_item_pushed[of env i s s']
    draft_send_item_pushed[of env i s s'] message_reply_item_pushed[of env i s s']
    message_move_item_pushed[of env i s s'] message_send_item_pushed[of env i s s']
    add_item_pushed[of env i s s'] messageAttachment_get_item_pushed[of env i s s']
    folder_create_item_pushed[of env i s s'] folder_delete_item_pushed[of env i s s']
    folder_get_item_pushed[of env i s s'] folder_update_item_pushed[of env i s s']
  by (cases op) (simp_all add: item_body_def in_place_def spreads_list_def)

lemma item_body_records:
  shows "item_body env op i s = Inr (Next s') \<Longrightarrow>
           \<exists>xs. returnData s' = returnData s @ xs \<and> (\<forall>x\<in>set xs. item_pairedItem x = Some i)"
    and "item_body env op i s = Inl (e, s') \<Longrightarrow> returnData s' = returnData s"
proof -
  assume a: "item_body env op i s = Inr (Next s')"
  show "\<exists>xs. returnData s' = returnData s @ xs \<and> (\<forall>x\<in>set xs. item_pairedItem x = Some i)"
  proof (cases "in_place op")
    case True
    from in_place_body(1)[OF True a] have "returnData s' = returnData s" by blast
    then show ?thesis by (rule unchanged_records)
  next
    case False
    show ?thesis
    proof (cases "spreads_list op")
      case s: False
      from item_body_pushed[OF False s a] show ?thesis by (rule pushed_records)
    next
      case True
      with a have "\<exists>xs. returnData s' = returnData s @ constructExecutionMetaData xs i"
        using message_getAll_item_Next[of env i s s'] list_items_Next[of env i s s']
        by (auto simp: spreads_list_def item_body_def)
      then show ?thesis by (rule tagged_records)
    qed
  qed
next
  assume a: "item_body env op i s = Inl (e, s')"
  then show "returnData s' = returnData s"
    using message_delete_item_Inl[of env i s e s'] message_get_item_Inl[of env i s e s']
      message_getAll_item_Inl[of env i s e s'] getMime_item_Inl[of env i s e s']
      add_item_Inl[of env i s e s'] download_item_Inl[of env i s e s']
      message_update_item_Inl[of env i s e s'] draft_create_item_Inl[of env i s e s']
      draft_send_item_Inl[of env i s e s'] message_reply_item_Inl[of env i s e s']
      message_move_item_Inl[of env i s e s'] message_send_item_Inl[of env i s e s']
      messageAttachment_get_item_Inl[of env i s e s'] folder_create_item_Inl[of env i s e s']
      folder_delete_item_Inl[of env i s e s'] folder_get_item_Inl[of env i s e s']
      folder_update_item_Inl[of env i s e s'] list_items_Inl[of env i s e s']
    by (cases op) (simp_all add: item_body_def)
qed

lemma item_body_Return:
  assumes "item_body env op i s = Inr (Return out)"
  shows "op = Message_get \<and> truthy (af_dataPropertyAttachmentsPrefixName (additionalFields env i))"
proof -
  have "op = Message_get"
    using assms message_delete_item_Return[of env i s out] message_getAll_item_Return[of env i s out]
      getMime_item_Return[of env i s out] add_item_Return[of env i s out]
      download_item_Return[of env i s out] message_update_item_Return[of env i s out]
      draft_create_item_Return[of env i s out] draft_send_item_Return[of env i s out]
      message_reply_item_Return[of env i s out] message_move_item_Return[of env i s out]
      message_send_item_Return[of env i s out] messageAttachment_get_item_Return[of env i s out]
      folder_create_item_Return[of env i s out] folder_delete_item_Return[of env i s out]
      folder_get_item_Return[of env i s out] folder_update_item_Return[of env i s out]
      list_items_Return[of env i s out]
    by (cases op) (simp_all add: item_body_def)
  with assms message_get_item_Return[of env i s out] show ?thesis
    by (auto simp: item_body_def)
qed

subsection \<open>Abort at the first failure\<close>

lemma mutate_loop_without_isolation:
  "\<not> continueOnFail env \<Longrightarrow> mutate_loop env body ixs st = accumulate_loop env body ixs st"
  by (induction ixs arbitrary: st) (auto split: sum.splits step.splits)

lemma op_loop_without_isolation:
  "\<not> continueOnFail env \<Longrightarrow> op_loop env op ixs st = accumulate_loop env (item_body env op) ixs st"
  by (simp add: op_loop_def mutate_loop_without_isolation)

lemma accumulate_loop_append:
  "accumulate_loop env body (xs @ ys) st =
     (case accumulate_loop env body xs st of
        Inr (Next s) \<Rightarrow> accumulate_loop env body ys s
      | r \<Rightarrow> r)"
proof (induction xs arbitrary: st)
  case Nil
  show ?case by simp
next
  case (Cons i xs)
  show ?case
  proof (cases "body i st")
    case (Inl y)
    obtain e s1 where "y = (e, s1)" by (cases y)
    with Inl Cons show ?thesis by simp
  next
    case (Inr y)
    with Cons show ?thesis by (cases y) simp_all
  qed
qed

lemma accumulate_loop_abort:
  assumes cof: "\<not> continueOnFail env"
      and N: "\<And>i s s'. body i s = Inr (Next s') \<Longrightarrow>
                \<exists>xs. returnData s' = returnData s @ xs \<and> (\<forall>x\<in>set xs. item_pairedItem x = Some i)"
      and E: "\<And>i s e s'. body i s = Inl (e, s') \<Longrightarrow> returnData s' = returnData s"
  shows "accumulate_loop env body ixs st = Inl (e, st') \<Longrightarrow>
         \<exists>pre k post sk. ixs = pre @ k # post
            \<and> accumulate_loop env body pre st = Inr (Next sk)
            \<and> body k sk = Inl (e, st')
            \<and> (\<forall>x\<in>set (returnData st').
                  x \<in> set (returnData st) \<or> (\<exists>j\<in>set pre. item_pairedItem x = Some j))"
proof (induction ixs arbitrary: st)
  case Nil
  then show ?case by simp
next
  case (Cons i ixs)
  show ?case
  proof (cases "body i st")
    case (Inl y)
    obtain e1 s1 where y: "y = (e1, s1)" by (cases y)
    from Cons.prems Inl y cof have eq: "e1 = e" "s1 = st'" by simp_all
    from E[OF Inl[unfolded y]] eq have "returnData st' = returnData st" by simp
    moreover have "i # ixs = [] @ i # ixs" by simp
    moreover from Inl y eq have "body i st = Inl (e, st')" by simp
    moreover have "accumulate_loop env body [] st = Inr (Next st)" by simp
    ultimately show ?thesis
      by (intro exI[of _ "[]"] exI[of _ i] exI[of _ ixs] exI[of _ st] conjI) simp_all
  next
    case (Inr y)
    show ?thesis
    proof (cases y)
      case (Return out)
      with Cons.prems Inr show ?thesis by simp
    next
      case (Next s1)
      with Cons.prems Inr have "accumulate_loop env body ixs s1 = Inl (e, st')" by simp
      from Cons.IH[OF this] obtain pre k post sk where
        d: "ixs = pre @ k # post" and p: "accumulate_loop env body pre s1 = Inr (Next sk)"
        and b: "body k sk = Inl (e, st')"
        and r: "\<forall>x\<in>set (returnData st').
                  x \<in> set (returnData s1) \<or> (\<exists>j\<in>set pre. item_pairedItem x = Some j)"
        by blast
      from N[OF Inr[unfolded Next]] obtain xs where
        xs: "returnData s1 = returnData st @ xs" "\<forall>x\<in>set xs. item_pairedItem x = Some i"
        by blast
      have dd: "i # ixs = (i # pre) @ k # post" using d by simp
      have pp: "accumulate_loop env body (i # pre) st = Inr (Next sk)"
        using Inr Next p by simp
      have rr: "\<forall>x\<in>set (returnData st').
                  x \<in> set (returnData st) \<or> (\<exists>j\<in>set (i # pre). item_pairedItem x = Some j)"
      proof
        fix x assume "x \<in> set (returnData st')"
        with r have "x \<in> set (returnData s1) \<or> (\<exists>j\<in>set pre. item_pairedItem x = Some j)"
          by (rule bspec)
        then show "x \<in> set (returnData st) \<or> (\<exists>j\<in>set (i # pre). item_pairedItem x = Some j)"
        proof
          assume "x \<in> set (returnData s1)"
          then have "x \<in> set (returnData st) \<or> x \<in> set xs" unfolding xs(1) by simp
          then show ?thesis using xs(2) by auto
        next
          assume "\<exists>j\<in>set pre. item_pairedItem x = Some j"
          then show ?thesis by auto
        qed
      qed
      show ?thesis
        by (intro exI[of _ "i # pre"] exI[of _ k] exI[of _ post] exI[of _ sk] conjI dd pp b rr)
    qed
  qed
qed

lemma upt_split:
  assumes "[0..<n] = pre @ k # post"
  shows "k < n \<and> pre = [0..<k]"
proof -
  have "k \<in> set [0..<n]" unfolding assms by simp
  then have kn: "k < n" by simp
  have "length pre < length [0..<n]" unfolding assms by simp
  then have ln: "length pre < n" by simp
  have "[0..<n] ! length pre = k" unfolding assms by simp
  with ln have lk: "length pre = k" by simp
  have "pre = take (length pre) [0..<n]" unfolding assms by simp
  also have "\<dots> = [0..<k]" unfolding lk using kn by (simp add: take_upt)
  finally show ?thesis using kn by simp
qed

lemma upt_at:
  assumes "k < n"
  shows "[0..<n] = [0..<k] @ k # [Suc k..<n]"
proof -
  from assms obtain d where n: "n = k + d" using less_imp_add_positive by blast
  have "[0..<n] = [0..<k] @ [k..<n]" unfolding n by (rule upt_add_eq_append) simp
  also have "[k..<n] = k # [Suc k..<n]" using assms by (rule upt_conv_Cons)
  finally show ?thesis .
qed

lemma run_operation_throws:
  "run_operation env op items0 = Inl (e, st') \<longleftrightarrow>
     op_loop env op [0..<length items0] (initial_state items0) = Inl (e, st')"
proof (cases "in_place op")
  case True
  then show ?thesis by (simp add: run_operation_def op_loop_def Let_def)
next
  case False
  then show ?thesis
    by (cases "accumulate_loop env (item_body env op) [0..<length items0] (initial_state items0)")
       (auto simp: run_operation_def op_loop_def Let_def split: if_splits step.splits)
qed

text \<open>
  C7. With continue-on-fail off: when the iterations for the indices below \<open>k\<close> have
  succeeded and the iteration for \<open>k\<close> throws \<open>e\<close>, the run ends there, in the state of
  that throw; and a run that ends with an error \<open>e\<close> is such a run for some index \<open>k\<close>:
  \<open>execute\<close> throws that very \<open>e\<close>, nothing is done for a later item, and every record
  accumulated so far has an origin index below \<open>k\<close>.
\<close>

theorem first_failure_aborts:
  assumes "\<not> continueOnFail env"
  shows "(\<forall>k sk e st'.
            k < length items0
            \<and> op_loop env op [0..<k] (initial_state items0) = Inr (Next sk)
            \<and> item_body env op k sk = Inl (e, st')
            \<longrightarrow> run_operation env op items0 = Inl (e, st'))
       \<and> (\<forall>e st'. run_operation env op items0 = Inl (e, st') \<longrightarrow>
             execute env op items0 = Inl e
           \<and> (\<exists>k<length items0. \<exists>sk.
                 op_loop env op [0..<k] (initial_state items0) = Inr (Next sk)
               \<and> item_body env op k sk = Inl (e, st')
               \<and> (\<forall>x\<in>set (returnData st'). \<exists>j<k. item_pairedItem x = Some j)))"
proof (intro conjI allI impI)
  fix k sk e st'
  assume a: "k < length items0
            \<and> op_loop env op [0..<k] (initial_state items0) = Inr (Next sk)
            \<and> item_body env op k sk = Inl (e, st')"
  then have k: "k < length items0"
    and p: "accumulate_loop env (item_body env op) [0..<k] (initial_state items0) = Inr (Next sk)"
    and b: "item_body env op k sk = Inl (e, st')"
    by (simp_all add: op_loop_without_isolation[OF assms])
  have "accumulate_loop env (item_body env op) [0..<length items0] (initial_state items0)
          = accumulate_loop env (item_body env op) (k # [Suc k..<length items0]) sk"
    unfolding upt_at[OF k] accumulate_loop_append p by simp
  also have "\<dots> = Inl (e, st')" using b assms by simp
  finally show "run_operation env op items0 = Inl (e, st')"
    unfolding run_operation_throws op_loop_without_isolation[OF assms] .
next
  fix e st'
  assume r: "run_operation env op items0 = Inl (e, st')"
  then show "execute env op items0 = Inl e" by (simp add: execute_def)
  from r have l: "accumulate_loop env (item_body env op) [0..<length items0] (initial_state items0)
      = Inl (e, st')"
    unfolding run_operation_throws op_loop_without_isolation[OF assms] .
  have "\<exists>pre k post sk. [0..<length items0] = pre @ k # post
            \<and> accumulate_loop env (item_body env op) pre (initial_state items0) = Inr (Next sk)
            \<and> item_body env op k sk = Inl (e, st')
            \<and> (\<forall>x\<in>set (returnData st').
                  x \<in> set (returnData (initial_state items0))
                  \<or> (\<exists>j\<in>set pre. item_pairedItem x = Some j))"
  proof (rule accumulate_loop_abort[where body = "item_body env op" and env = env, OF assms _ _ l])
    fix i s s' assume "item_body env op i s = Inr (Next s')"
    then show "\<exists>xs. returnData s' = returnData s @ xs \<and> (\<forall>x\<in>set xs. item_pairedItem x = Some i)"
      by (rule item_body_records(1))
  next
    fix i s e s' assume "item_body env op i s = Inl (e, s')"
    then show "returnData s' = returnData s"
      by (rule item_body_records(2))
  qed
  then obtain pre k post sk where
    d: "[0..<length items0] = pre @ k # post"
    and p: "accumulate_loop env (item_body env op) pre (initial_state items0) = Inr (Next sk)"
    and b: "item_body env op k sk = Inl (e, st')"
    and rd: "\<forall>x\<in>set (returnData st').
              x \<in> set (returnData (initial_state items0)) \<or> (\<exists>j\<in>set pre. item_pairedItem x = Some j)"
    by blast
  from upt_split[OF d] have k: "k < length items0" and pre: "pre = [0..<k]" by simp_all
  from p have p': "op_loop env op [0..<k] (initial_state items0) = Inr (Next sk)"
    unfolding pre op_loop_without_isolation[OF assms] .
  have rr: "\<forall>x\<in>set (returnData st'). \<exists>j<k. item_pairedItem x = Some j"
  proof
    fix x assume "x \<in> set (returnData st')"
    with rd have "x \<in> set (returnData (initial_state items0)) \<or> (\<exists>j\<in>set pre. item_pairedItem x = Some j)"
      by (rule bspec)
    then show "\<exists>j<k. item_pairedItem x = Some j"
      unfolding pre by (auto simp: initial_state_def)
  qed
  show "\<exists>k<length items0. \<exists>sk.
                 op_loop env op [0..<k] (initial_state items0) = Inr (Next sk)
               \<and> item_body env op k sk = Inl (e, st')
               \<and> (\<forall>x\<in>set (returnData st'). \<exists>j<k. item_pairedItem x = Some j)"
    by (intro exI[of _ k] exI[of _ sk] conjI k p' b rr)
qed

theorem first_failure_aborts_witness:
  "\<not> continueOnFail (bad_at 2 False)
   \<and> execute (bad_at 2 False) Message_get five_items = Inl not_found
   \<and> execute (bad_at 2 False) Message_delete five_items = Inl not_found
   \<and> execute (bad_at 2 False) Message_update five_items = Inl not_found
   \<and> execute (bad_at 2 False) Message_getMime five_items = Inl not_found
   \<and> map item_pairedItem (returnData (the (outcome_state
        (run_operation (bad_at 2 False) Message_get five_items)))) = [Some 0, Some 1]
   \<and> map req_target (outcome_calls (run_operation (bad_at 2 False) Message_get five_items))
        = [JStr ''/messages/m'', JStr ''/messages/m'', JStr ''/messages/bad'']"
proof -
  let ?E = "bad_at 2 False"
  let ?init = "initial_state five_items"
  have h: "\<not> continueOnFail ?E" by (simp add: bad_at_def example_env_def)
  note t = first_failure_aborts[OF h]
  have idx: "[0..<length five_items] = [0, 1, 2, 3, 4]" by (simp add: five_items_def upt_rec)
  have i2: "[0..<2] = [0, Suc 0]" by (simp add: upt_rec)
  note defs = in_place_def item_body_def microsoftApiRequest_def send_def bad_at_def
    example_env_def example_parameters_def picky_server_def mime_response_def initial_state_def
    push_def success_record outcome_state_def set_select_filter_def empty_fields_def Let_def
  \<comment> \<open>\<open>message.get\<close>, from the failing iteration to the run\<close>
  let ?sk = "the (outcome_state (op_loop ?E Message_get [0..<2] ?init))"
  let ?st' = "the (outcome_state (item_body ?E Message_get 2 ?sk))"
  have k: "2 < length five_items" by (simp add: five_items_def)
  have p: "op_loop ?E Message_get [0..<2] ?init = Inr (Next ?sk)"
    unfolding op_loop_def i2 by (simp add: defs message_get_item_def)
  have b: "item_body ?E Message_get 2 ?sk = Inl (not_found, ?st')"
    unfolding op_loop_def i2 by (simp add: defs message_get_item_def)
  from t[of five_items Message_get, THEN conjunct1, rule_format, of 2 ?sk not_found ?st'] k p b
  have run_get: "run_operation ?E Message_get five_items = Inl (not_found, ?st')" by blast
  from t[of five_items Message_get, THEN conjunct2, rule_format, OF run_get]
  have A: "execute ?E Message_get five_items = Inl not_found" by blast
  have B: "map item_pairedItem (returnData (the (outcome_state
        (run_operation ?E Message_get five_items)))) = [Some 0, Some 1]"
    unfolding run_get op_loop_def i2
    by (simp add: defs message_get_item_def returnJsonArray_def constructExecutionMetaData_def
        json_item_def)
  have C: "map req_target (outcome_calls (run_operation ?E Message_get five_items))
        = [JStr ''/messages/m'', JStr ''/messages/m'', JStr ''/messages/bad'']"
    unfolding run_get op_loop_def i2
    by (simp add: defs message_get_item_def)
  \<comment> \<open>the other operations, from the run to \<open>execute\<close>\<close>
  have "run_operation ?E Message_delete five_items =
          Inl (not_found, the (outcome_state (run_operation ?E Message_delete five_items)))"
    unfolding run_operation_def idx by (simp add: defs message_delete_item_def)
  from t[of five_items Message_delete, THEN conjunct2, rule_format, OF this]
  have D: "execute ?E Message_delete five_items = Inl not_found" by blast
  have "run_operation ?E Message_update five_items =
          Inl (not_found, the (outcome_state (run_operation ?E Message_update five_items)))"
    unfolding run_operation_def idx by (simp add: defs message_update_item_def)
  from t[of five_items Message_update, THEN conjunct2, rule_format, OF this]
  have U: "execute ?E Message_update five_items = Inl not_found" by blast
  have "run_operation ?E Message_getMime five_items =
          Inl (not_found, the (outcome_state (run_operation ?E Message_getMime five_items)))"
    unfolding run_operation_def idx by (simp add: defs message_getMime_item_def five_items_def)
  from t[of five_items Message_getMime, THEN conjunct2, rule_format, OF this]
  have M: "execute ?E Message_getMime five_items = Inl not_found" by blast
  from h A D U M B C show ?thesis by blast
qed

subsection \<open>One record per item\<close>

text \<open>
  C1, as the code has it. With continue-on-fail on, every accumulating operation other
  than the list operations, \<open>message.get\<close> only when no item sets the attachment prefix,
  returns an output of the length of the input whose record at position \<open>i\<close> carries the
  origin index \<open>i\<close>, provided the API never answers with an array.
\<close>

theorem one_record_per_item:
  assumes "continueOnFail env"
      and "\<not> in_place op" and "\<not> spreads_list op"
      and "op = Message_get \<longrightarrow>
             (\<forall>i<length items0. \<not> truthy (af_dataPropertyAttachmentsPrefixName (additionalFields env i)))"
      and "\<forall>log r resp. server env log r = Inr resp \<longrightarrow> \<not> is_array (resp_body resp)"
  shows "\<exists>out. execute env op items0 = Inr out
           \<and> length out = length items0
           \<and> (\<forall>i<length items0. item_pairedItem (out ! i) = Some i)"
proof -
  let ?ixs = "[0..<length items0]"
  let ?loop = "accumulate_loop env (item_body env op) ?ixs (initial_state items0)"
  from assms(3) have ng: "op \<noteq> Message_getAll" by (auto simp: spreads_list_def)
  with assms(2) have run: "run_operation env op items0 = ?loop"
    by (simp add: run_operation_def Let_def)
  have "\<exists>st'. ?loop = Inr (Next st')
           \<and> map item_pairedItem (returnData st')
               = map item_pairedItem (returnData (initial_state items0)) @ map Some ?ixs"
  proof (rule accumulate_loop_one_each[OF assms(1)])
    fix i s s' assume i: "i \<in> set ?ixs" and b: "item_body env op i s = Inr (Next s')"
    from item_body_pushed[OF assms(2,3) b] obtain j where
      rd: "returnData s' = returnData s @ constructExecutionMetaData (returnJsonArray j) i"
      and j: "j = success_json \<or> (\<exists>log r resp. server env log r = Inr resp \<and> j = resp_body resp)"
      unfolding pushed_def by blast
    from j assms(5) have "\<not> is_array j"
      by (auto simp: success_json_def is_array_def)
    from rd[unfolded returnJsonArray_single[OF this]]
    show "\<exists>x. returnData s' = returnData s @ [x] \<and> item_pairedItem x = Some i" by simp
  next
    fix i s e s' assume "item_body env op i s = Inl (e, s')"
    then show "returnData s' = returnData s" by (rule item_body_records(2))
  next
    fix i s out assume i: "i \<in> set ?ixs"
    show "item_body env op i s \<noteq> Inr (Return out)"
    proof
      assume "item_body env op i s = Inr (Return out)"
      from item_body_Return[OF this] assms(4) i show False by simp
    qed
  qed
  then obtain st' where l: "?loop = Inr (Next st')"
    and m: "map item_pairedItem (returnData st') = map Some ?ixs"
    by (auto simp: initial_state_def)
  from l run assms(2) have ex: "execute env op items0 = Inr (returnData st')"
    by (simp add: execute_def)
  from m have len: "length (returnData st') = length items0"
    using length_map[of item_pairedItem "returnData st'"] by simp
  have "\<forall>i<length items0. item_pairedItem (returnData st' ! i) = Some i"
  proof (intro allI impI)
    fix i assume i: "i < length items0"
    then have "item_pairedItem (returnData st' ! i) = map item_pairedItem (returnData st') ! i"
      using len by simp
    also have "\<dots> = Some i" unfolding m using i by simp
    finally show "item_pairedItem (returnData st' ! i) = Some i" .
  qed
  with ex len show ?thesis by blast
qed

lemma origins_of_three:
  assumes "\<exists>out. execute env op three_items = Inr out
           \<and> length out = length three_items
           \<and> (\<forall>i<length three_items. item_pairedItem (out ! i) = Some i)"
  shows "output_origins (execute env op three_items) = [Some 0, Some 1, Some 2]"
proof -
  from assms obtain out where
    ex: "execute env op three_items = Inr out" and len: "length out = 3"
    and o: "\<forall>i<3. item_pairedItem (out ! i) = Some i"
    by (auto simp: three_items_def)
  from o have "item_pairedItem (out ! 0) = Some 0" "item_pairedItem (out ! 1) = Some 1"
     "item_pairedItem (out ! 2) = Some 2" by simp_all
  moreover from len obtain a b c where "out = [a, b, c]"
    by (cases out; cases "tl out"; cases "tl (tl out)") auto
  ultimately show ?thesis using ex by (simp add: output_origins_def)
qed

theorem one_record_per_item_witness:
  "continueOnFail (bad_at 1 True)
   \<and> output_origins (execute (bad_at 1 True) Message_delete three_items) = [Some 0, Some 1, Some 2]
   \<and> output_origins (execute (bad_at 1 True) Message_get three_items) = [Some 0, Some 1, Some 2]
   \<and> output_origins (execute (bad_at 1 True) Message_move three_items) = [Some 0, Some 1, Some 2]
   \<and> output_origins (execute (bad_at 1 True) Draft_send three_items) = [Some 0, Some 1, Some 2]
   \<and> output_origins (execute (bad_at 1 True) Folder_delete three_items) = [Some 0, Some 1, Some 2]
   \<and> output_origins (execute (bad_at 1 True) MessageAttachment_add three_items) = [Some 0, Some 1, Some 2]
   \<and> map item_json (the_output (execute (bad_at 1 True) Message_delete three_items))
       = [success_json, error_json not_found, success_json]"
proof -
  let ?E = "bad_at 1 True"
  have h1: "continueOnFail ?E" by (simp add: bad_at_def example_env_def)
  have h5: "\<forall>log r resp. server ?E log r = Inr resp \<longrightarrow> \<not> is_array (resp_body resp)"
    by (auto simp: bad_at_def example_env_def picky_server_def mime_response_def is_array_def
             split: if_splits)
  have h4: "Message_get = Message_get \<longrightarrow>
             (\<forall>i<length three_items. \<not> truthy (af_dataPropertyAttachmentsPrefixName (additionalFields ?E i)))"
    by (simp add: bad_at_def example_env_def empty_fields_def)
  note np = in_place_def spreads_list_def
  have A: "output_origins (execute ?E Message_delete three_items) = [Some 0, Some 1, Some 2]"
    by (rule origins_of_three, rule one_record_per_item[OF h1 _ _ _ h5]) (simp_all add: np)
  have B: "output_origins (execute ?E Message_get three_items) = [Some 0, Some 1, Some 2]"
    by (rule origins_of_three, rule one_record_per_item[OF h1 _ _ h4 h5]) (simp_all add: np)
  have C: "output_origins (execute ?E Message_move three_items) = [Some 0, Some 1, Some 2]"
    by (rule origins_of_three, rule one_record_per_item[OF h1 _ _ _ h5]) (simp_all add: np)
  have D: "output_origins (execute ?E Draft_send three_items) = [Some 0, Some 1, Some 2]"
    by (rule origins_of_three, rule one_record_per_item[OF h1 _ _ _ h5]) (simp_all add: np)
  have F: "output_origins (execute ?E Folder_delete three_items) = [Some 0, Some 1, Some 2]"
    by (rule origins_of_three, rule one_record_per_item[OF h1 _ _ _ h5]) (simp_all add: np)
  have G: "output_origins (execute ?E MessageAttachment_add three_items) = [Some 0, Some 1, Some 2]"
    by (rule origins_of_three, rule one_record_per_item[OF h1 _ _ _ h5]) (simp_all add: np)
  have idx: "[0..<length three_items] = [0, 1, 2]" by (simp add: three_items_def upt_rec)
  have J: "map item_json (the_output (execute ?E Message_delete three_items))
       = [success_json, error_json not_found, success_json]"
    unfolding execute_def run_operation_def idx
    by (simp add: in_place_def item_body_def message_delete_item_def microsoftApiRequest_def
        send_def bad_at_def example_env_def picky_server_def initial_state_def push_def
        success_record error_record the_output_def Let_def)
  from h1 A B C D F G J show ?thesis by blast
qed

text \<open>
  C1 as stated fails twice with continue-on-fail on. \<open>message.get\<close> with the attachment
  prefix returns from inside the loop after the first item that succeeds: two items give
  one record. \<open>message.getAll\<close> pushes one record per message found: one item whose list
  holds two messages gives two records.
\<close>

theorem output_length_differs:
  "continueOnFail prefix_env
   \<and> length [plain_item, plain_item] = 2
   \<and> output_length (execute prefix_env Message_get [plain_item, plain_item]) = Some 1
   \<and> continueOnFail two_messages_env
   \<and> length [plain_item] = 1
   \<and> output_length (execute two_messages_env Message_getAll [plain_item]) = Some 2"
proof -
  have i2: "[0..<length [plain_item, plain_item]] = [0, 1]" by (simp add: upt_rec)
  have A: "output_length (execute prefix_env Message_get [plain_item, plain_item]) = Some 1"
    unfolding execute_def run_operation_def i2
    by (simp add: in_place_def item_body_def message_get_item_def set_select_filter_def
        microsoftApiRequest_def send_def downloadAttachments_call_def prefix_env_def example_env_def
        empty_fields_def initial_state_def push_def constructExecutionMetaData_def
        output_length_def Let_def)
  have B: "output_length (execute two_messages_env Message_getAll [plain_item]) = Some 2"
    unfolding execute_def run_operation_def
    by (simp add: in_place_def item_body_def message_getAll_item_def set_select_filter_def
        microsoftApiRequest_def send_def two_messages_env_def example_env_def
        empty_fields_def initial_state_def push_def constructExecutionMetaData_def
        returnJsonArray_def getAll_additionalFields_def output_length_def Let_def)
  have C: "continueOnFail prefix_env" "continueOnFail two_messages_env"
    by (simp_all add: prefix_env_def two_messages_env_def example_env_def)
  from A B C show ?thesis by simp
qed

end
